theory Spec2Isabelle
  imports Complex_Main "HOL-Library.Log_Nat"
begin

section \<open>Virtual Number Reseller: the Express routes over the PostgreSQL schema\<close>

text \<open>
  The backend is a set of Express route handlers that talk to one PostgreSQL client.
  Each handler is modelled as a function from the database (and the answers of the
  external services it awaits) to an outcome, the new database and the trace of the
  effects it issued, in the order of the source's \<^verbatim>\<open>await\<close>s. No handler opens a
  transaction, so every statement commits on its own and a handler that throws keeps
  the writes it already made.
\<close>

subsection \<open>JavaScript values: Number, parseFloat, parseInt, replace\<close>

text \<open>
  \<^verbatim>\<open>NUMERIC\<close> columns hold exact decimals. The model covers their finite values, as
  rationals. It does not cover SQL \<^verbatim>\<open>NULL\<close>, which the nullable columns
  \<^verbatim>\<open>wallet_balance\<close> and \<^verbatim>\<open>price\<close> admit, nor the \<^verbatim>\<open>NUMERIC\<close> value \<^verbatim>\<open>NaN\<close>: the
  routes validate no amount, so the price route and the top-up creation can store
  them, and every statement below is about databases and requests whose amounts are
  finite numbers. node-postgres hands a \<^verbatim>\<open>NUMERIC\<close> to JavaScript as its decimal
  string, and \<^verbatim>\<open>parseFloat\<close> turns that string into the nearest IEEE 754 binary64
  value, ties to even; on the finite values of the model it never yields \<^verbatim>\<open>NaN\<close>.
\<close>

type_synonym numeric = rat

datatype js_number = Finite rat | PosInfinity | NegInfinity | NaN

text \<open>\<open>rne_div n d\<close> is the integer nearest to \<open>n / d\<close> (for \<open>d > 0\<close>), ties to even.\<close>

definition rne_div :: "int \<Rightarrow> int \<Rightarrow> int" where
  "rne_div n d =
     (let q = n div d; r = n mod d
      in if 2 * r < d then q else if d < 2 * r then q + 1 else if even q then q else q + 1)"

text \<open>\<open>pow2 k\<close> is \<open>2^k\<close> for an integer exponent of either sign.\<close>

definition pow2 :: "int \<Rightarrow> rat" where
  "pow2 k = (if 0 \<le> k then 2 ^ nat k else 1 / 2 ^ nat (- k))"

text \<open>For \<open>a > 0\<close>, \<open>binade a\<close> is the exponent \<open>k\<close> with \<open>2^k \<le> a < 2^(k+1)\<close>.\<close>

definition binade :: "rat \<Rightarrow> int" where
  "binade a =
     (let (n, d) = quotient_of a;
          k = bitlen n - bitlen d
      in if pow2 k \<le> a then k else k - 1)"

text \<open>
  Rounding of a positive rational to binary64: 53 significant bits, exponents from
  \<open>-1022\<close> (below that the spacing stays \<open>2^-1074\<close>, the subnormals), overflow to
  infinity once the rounded value reaches \<open>2^1024\<close>.
\<close>

definition round_binary64 :: "rat \<Rightarrow> rat option" where
  "round_binary64 a =
     (let (n, d) = quotient_of a;
          s = max (binade a) (- 1022) - 52;
          m = (if 0 \<le> s then rne_div n (d * 2 ^ nat s) else rne_div (n * 2 ^ nat (- s)) d);
          v = of_int m * pow2 s
      in if v < 2 ^ 1024 then Some v else None)"

definition parseFloat :: "numeric \<Rightarrow> js_number" where
  "parseFloat x =
     (if x = 0 then Finite 0
      else if 0 < x then (case round_binary64 x of Some v \<Rightarrow> Finite v | None \<Rightarrow> PosInfinity)
      else (case round_binary64 (- x) of Some v \<Rightarrow> Finite (- v) | None \<Rightarrow> NegInfinity))"

text \<open>
  The same rounding as a function of the rational alone: \<open>round_half_even x\<close> is the
  integer nearest to \<open>x\<close>, ties to even; \<open>to_grid s x\<close> rounds \<open>x\<close> to the multiples of
  \<open>2^s\<close>; \<open>spacing a\<close> is the exponent of the distance between neighbouring doubles
  at \<open>a\<close>. They serve to state what \<open>rne_div\<close> and \<open>round_binary64\<close> compute.
\<close>

definition round_half_even :: "rat \<Rightarrow> int" where
  "round_half_even x =
     (let f = \<lfloor>x\<rfloor>; r = x - of_int f
      in if r < 1 / 2 then f else if 1 / 2 < r then f + 1 else if even f then f else f + 1)"

definition to_grid :: "int \<Rightarrow> rat \<Rightarrow> rat" where
  "to_grid s x = of_int (round_half_even (x / pow2 s)) * pow2 s"

definition spacing :: "rat \<Rightarrow> int" where
  "spacing a = max (binade a) (- 1022) - 52"

text \<open>The JavaScript \<^verbatim>\<open><\<close> on Numbers: false whenever an operand is \<^verbatim>\<open>NaN\<close>.\<close>

fun js_lt :: "js_number \<Rightarrow> js_number \<Rightarrow> bool" where
  "js_lt NaN _ = False"
| "js_lt _ NaN = False"
| "js_lt (Finite a) (Finite b) = (a < b)"
| "js_lt (Finite a) PosInfinity = True"
| "js_lt (Finite a) NegInfinity = False"
| "js_lt PosInfinity _ = False"
| "js_lt NegInfinity NegInfinity = False"
| "js_lt NegInfinity _ = True"

text \<open>
  \<^verbatim>\<open>String.prototype.replace\<close> with a string pattern replaces the first occurrence only.
\<close>

fun replace_first :: "string \<Rightarrow> string \<Rightarrow> string \<Rightarrow> string" where
  "replace_first pat rep [] = (if pat = [] then rep else [])"
| "replace_first pat rep (c # cs) =
     (if take (length pat) (c # cs) = pat then rep @ drop (length pat) (c # cs)
      else c # replace_first pat rep cs)"

text \<open>
  A string is the list of the bytes of its UTF-8 encoding. The pattern \<^verbatim>\<open>topup_\<close>, the
  signs and the digits are ASCII, so searching and reading them byte by byte is
  searching and reading them character by character.

  \<^verbatim>\<open>parseInt(s)\<close> without a radix: leading white space is skipped, then an optional
  sign, then an optional \<^verbatim>\<open>0x\<close> prefix that switches to radix 16, then the longest run
  of digits; no digit gives \<^verbatim>\<open>NaN\<close>, here \<open>None\<close>. White space is every ECMAScript
  \<^verbatim>\<open>WhiteSpace\<close> or \<^verbatim>\<open>LineTerminator\<close> character: TAB, LF, VT, FF, CR, SP, and beyond
  ASCII U+00A0, U+1680, U+2000 to U+200A, U+2028, U+2029, U+202F, U+205F, U+3000 and
  U+FEFF, recognised here by their two or three bytes. The result is the mathematical
  integer: JavaScript rounds it to a double, which is exact on the whole range of the
  \<^verbatim>\<open>INTEGER\<close> columns it is compared with, and a value outside that range makes the
  query fail (see \<open>int4\<close>).
\<close>

definition ascii_space :: "nat \<Rightarrow> bool" where
  "ascii_space b = (b \<in> {9, 10, 11, 12, 13, 32})"

text \<open>U+00A0 is the bytes C2 A0.\<close>

definition space2 :: "nat \<Rightarrow> nat list \<Rightarrow> bool" where
  "space2 b bs = (b = 194 \<and> take 1 bs = [160])"

text \<open>
  The three-byte white space: U+1680 (E1 9A 80), U+2000 to U+200A (E2 80 80 to E2 80 8A),
  U+2028, U+2029 (E2 80 A8, E2 80 A9), U+202F (E2 80 AF), U+205F (E2 81 9F),
  U+3000 (E3 80 80), U+FEFF (EF BB BF).
\<close>

definition space3 :: "nat \<Rightarrow> nat list \<Rightarrow> bool" where
  "space3 b bs =
     (case take 2 bs of
        [b1, b2] \<Rightarrow>
          (b = 225 \<and> b1 = 154 \<and> b2 = 128)
          \<or> (b = 226 \<and> b1 = 128 \<and> ((128 \<le> b2 \<and> b2 \<le> 138) \<or> b2 = 168 \<or> b2 = 169 \<or> b2 = 175))
          \<or> (b = 226 \<and> b1 = 129 \<and> b2 = 159)
          \<or> (b = 227 \<and> b1 = 128 \<and> b2 = 128)
          \<or> (b = 239 \<and> b1 = 187 \<and> b2 = 191)
      | _ \<Rightarrow> False)"

fun trim_start :: "string \<Rightarrow> string" where
  "trim_start [] = []"
| "trim_start (c # cs) =
     (if ascii_space (of_char c) then trim_start cs
      else if space2 (of_char c) (map of_char cs) then trim_start (drop 1 cs)
      else if space3 (of_char c) (map of_char cs) then trim_start (drop 2 cs)
      else c # cs)"

definition digit_value :: "char \<Rightarrow> nat option" where
  "digit_value c =
     (let n = (of_char c :: nat)
      in if 48 \<le> n \<and> n \<le> 57 then Some (n - 48)
         else if 97 \<le> n \<and> n \<le> 122 then Some (n - 87)
         else if 65 \<le> n \<and> n \<le> 90 then Some (n - 55)
         else None)"

fun take_digits :: "nat \<Rightarrow> string \<Rightarrow> nat list" where
  "take_digits R [] = []"
| "take_digits R (c # cs) =
     (case digit_value c of
        None \<Rightarrow> []
      | Some v \<Rightarrow> if v < R then v # take_digits R cs else [])"

definition digits_value :: "nat \<Rightarrow> nat list \<Rightarrow> int" where
  "digits_value R ds = foldl (\<lambda>acc v. acc * int R + int v) 0 ds"

definition parseInt :: "string \<Rightarrow> int option" where
  "parseInt str =
     (let s = trim_start str;
          (sign, s1) = (case s of
                          [] \<Rightarrow> (1, s)
                        | c # cs \<Rightarrow> if c = CHR ''-'' then (- 1, cs)
                                    else if c = CHR ''+'' then (1, cs) else (1, s));
          (R, s2) = (if take 2 s1 = ''0x'' \<or> take 2 s1 = ''0X'' then (16, drop 2 s1)
                     else (10, s1));
          ds = take_digits R s2
      in if ds = [] then None else Some (sign * digits_value R ds))"

text \<open>The range of a PostgreSQL \<^verbatim>\<open>INTEGER\<close>; a parameter outside it is a query error.\<close>

definition int4 :: "int \<Rightarrow> bool" where
  "int4 n = (- 2147483648 \<le> n \<and> n \<le> 2147483647)"

text \<open>
  \<^verbatim>\<open>a || b\<close> on values that are strings or absent (\<^verbatim>\<open>undefined\<close>, \<^verbatim>\<open>null\<close>): the
  empty string is falsy.
\<close>

definition js_or :: "string option \<Rightarrow> string option \<Rightarrow> string option" where
  "js_or a b = (case a of None \<Rightarrow> b | Some s \<Rightarrow> if s = [] then b else a)"

subsection \<open>The schema of migrations.sql\<close>

text \<open>
  One record per table, one field per column (\<^verbatim>\<open>created_at\<close>, the wall clock, is left
  out). A table is the list of its rows in insertion order. Columns that the schema
  leaves nullable and that a route fills from a possibly absent value are options.
  A \<^verbatim>\<open>SERIAL\<close> key draws its value from the table's sequence.
\<close>

record user_row =
  u_id :: int
  email :: string
  phone :: "string option"
  password_hash :: string
  role :: string
  wallet_balance :: numeric

record service_row =
  s_id :: int
  code :: string
  name :: string
  provider :: string
  provider_cost :: numeric
  price :: numeric
  active :: bool

record topup_row =
  t_id :: int
  t_user_id :: "int option"
  amount :: numeric
  tx_ref :: "string option"
  t_status :: string

record order_row =
  o_id :: int
  o_user_id :: int
  o_service_id :: int
  o_provider :: string
  provider_order_id :: "string option"
  virtual_number :: "string option"
  sms_code :: "string option"
  o_status :: string

record db =
  users :: "user_row list"
  services :: "service_row list"
  topups :: "topup_row list"
  orders :: "order_row list"
  users_id_seq :: int
  topups_id_seq :: int
  orders_id_seq :: int

text \<open>\<^verbatim>\<open>UPDATE t SET ... WHERE cond\<close>: every row that satisfies the condition is rewritten.\<close>

definition update_where :: "('r \<Rightarrow> bool) \<Rightarrow> ('r \<Rightarrow> 'r) \<Rightarrow> 'r list \<Rightarrow> 'r list" where
  "update_where P f rows = map (\<lambda>r. if P r then f r else r) rows"

text \<open>\<^verbatim>\<open>result.rows[0]\<close> of a \<^verbatim>\<open>SELECT ... WHERE cond\<close>: \<open>None\<close> is \<^verbatim>\<open>undefined\<close>.\<close>

definition first_row :: "('r \<Rightarrow> bool) \<Rightarrow> 'r list \<Rightarrow> 'r option" where
  "first_row P rows = (case filter P rows of [] \<Rightarrow> None | r # _ \<Rightarrow> Some r)"

subsection \<open>The SQL statements of the routes\<close>

text \<open>
  One constructor per statement text in the source, with its parameters. A parameter
  that JavaScript computed with \<^verbatim>\<open>parseInt\<close> may be \<^verbatim>\<open>NaN\<close> (\<open>None\<close>).
\<close>

datatype stmt =
    InsertUser string "string option" string
  | SelectUserByEmail string
  | InsertTopup "int option" numeric string
  | UpdateTopupStatus string "int option"
  | SelectTopup "int option"
  | CreditUser numeric "int option"
  | SelectService int
  | SelectBalance int
  | InsertOrder int int string "string option" "string option" string
  | DebitUser numeric int
  | UpdateServicePrice numeric int

text \<open>
  \<open>int_param p\<close>: the parameter is accepted for an \<^verbatim>\<open>INTEGER\<close> column. \<^verbatim>\<open>NaN\<close> is
  sent as the text \<^verbatim>\<open>NaN\<close> and refused, as is a value outside the column's range.
\<close>

definition int_param :: "int option \<Rightarrow> bool" where
  "int_param p = (case p of None \<Rightarrow> False | Some n \<Rightarrow> int4 n)"

text \<open>
  \<open>exec q d\<close> runs one statement and says whether it succeeded; \<open>False\<close> is an error
  raised by PostgreSQL, which node-postgres turns into a rejected promise. A parameter
  that does not fit its \<^verbatim>\<open>INTEGER\<close> column is refused before the statement runs. A
  unique, primary-key or foreign-key violation is raised while the \<^verbatim>\<open>INSERT\<close> runs:
  the row is not stored, but the value drawn from the sequence is consumed. A sequence
  that has left the \<^verbatim>\<open>INTEGER\<close> range raises as well.
\<close>

fun exec :: "stmt \<Rightarrow> db \<Rightarrow> bool \<times> db" where
  "exec (InsertUser e ph h) d =
     (if \<not> int4 (users_id_seq d) then (False, d)
      else if e \<in> set (map email (users d)) \<or> users_id_seq d \<in> set (map u_id (users d))
      then (False, d\<lparr>users_id_seq := users_id_seq d + 1\<rparr>)
      else (True, d\<lparr>users := users d @
                   [\<lparr>u_id = users_id_seq d, email = e, phone = ph, password_hash = h,
                     role = ''user'', wallet_balance = 0\<rparr>],
                 users_id_seq := users_id_seq d + 1\<rparr>))"
| "exec (SelectUserByEmail e) d = (True, d)"
| "exec (InsertTopup uid amt st) d =
     (if (case uid of None \<Rightarrow> False | Some u \<Rightarrow> \<not> int4 u) \<or> \<not> int4 (topups_id_seq d)
      then (False, d)
      else if (case uid of None \<Rightarrow> False | Some u \<Rightarrow> u \<notin> set (map u_id (users d)))
              \<or> topups_id_seq d \<in> set (map t_id (topups d))
      then (False, d\<lparr>topups_id_seq := topups_id_seq d + 1\<rparr>)
      else (True, d\<lparr>topups := topups d @
                   [\<lparr>t_id = topups_id_seq d, t_user_id = uid, amount = amt, tx_ref = None,
                     t_status = st\<rparr>],
                 topups_id_seq := topups_id_seq d + 1\<rparr>))"
| "exec (UpdateTopupStatus st tid) d =
     (if int_param tid
      then (True, d\<lparr>topups := update_where (\<lambda>r. Some (t_id r) = tid)
                                 (\<lambda>r. r\<lparr>t_status := st\<rparr>) (topups d)\<rparr>)
      else (False, d))"
| "exec (SelectTopup tid) d = (int_param tid, d)"
| "exec (CreditUser amt uid) d =
     (True, d\<lparr>users := update_where (\<lambda>r. Some (u_id r) = uid)
                          (\<lambda>r. r\<lparr>wallet_balance := wallet_balance r + amt\<rparr>) (users d)\<rparr>)"
| "exec (SelectService sid) d = (int4 sid, d)"
| "exec (SelectBalance uid) d = (int4 uid, d)"
| "exec (InsertOrder uid sid prov poid num st) d =
     (if \<not> int4 uid \<or> \<not> int4 sid \<or> \<not> int4 (orders_id_seq d) then (False, d)
      else if uid \<notin> set (map u_id (users d)) \<or> sid \<notin> set (map s_id (services d))
              \<or> orders_id_seq d \<in> set (map o_id (orders d))
      then (False, d\<lparr>orders_id_seq := orders_id_seq d + 1\<rparr>)
      else (True, d\<lparr>orders := orders d @
                   [\<lparr>o_id = orders_id_seq d, o_user_id = uid, o_service_id = sid,
                     o_provider = prov, provider_order_id = poid, virtual_number = num,
                     sms_code = None, o_status = st\<rparr>],
                 orders_id_seq := orders_id_seq d + 1\<rparr>))"
| "exec (DebitUser amt uid) d =
     (if int4 uid
      then (True, d\<lparr>users := update_where (\<lambda>r. u_id r = uid)
                          (\<lambda>r. r\<lparr>wallet_balance := wallet_balance r - amt\<rparr>) (users d)\<rparr>)
      else (False, d))"
| "exec (UpdateServicePrice p sid) d =
     (if int4 sid
      then (True, d\<lparr>services := update_where (\<lambda>r. s_id r = sid) (\<lambda>r. r\<lparr>price := p\<rparr>) (services d)\<rparr>)
      else (False, d))"

subsection \<open>Effects, outcomes and the handler context\<close>

text \<open>
  What a handler does besides computing: SQL statements sent to the client and HTTP
  calls to a provider wrapper (module and service code) or to the payment gateway.
\<close>

datatype effect =
    Sql stmt
  | ProviderCall string string
  | GatewayCall int

datatype js_error = TypeError | AxiosError | DbError

text \<open>The fields of \<^verbatim>\<open>resp.data\<close> that the buy route reads; \<open>None\<close> is an absent field.\<close>

record provider_data =
  order_id :: "string option"
  id' :: "string option"
  number :: "string option"

text \<open>
  What awaiting a provider wrapper gives: the axios promise rejects (network error,
  non-2xx answer), or it resolves with \<^verbatim>\<open>resp.data\<close>, which may be \<^verbatim>\<open>null\<close>.
\<close>

datatype provider_outcome = Rejected | ResolvedNull | Resolved provider_data

text \<open>The same for the payment gateway's create-bill call; the handler reads \<^verbatim>\<open>resp.data.url\<close>.\<close>

datatype gateway_outcome = GwRejected | GwNull | GwData "string option"

datatype reply =
    Text string
  | ErrorJson string
  | OrderJson int provider_data
  | PaymentJson "string option" int
  | UserJson int string
  | TokenJson int string
  | OkJson

text \<open>
  A handler either sends a response (status code and body) or its promise rejects with
  nothing sent: Express 4 does not catch the rejection of an \<^verbatim>\<open>async\<close> handler.
\<close>

datatype outcome = Responded nat reply | Unhandled js_error

record ctx =
  dbs :: db
  trace :: "effect list"

definition emit :: "effect \<Rightarrow> ctx \<Rightarrow> ctx" where
  "emit e c = c\<lparr>trace := trace c @ [e]\<rparr>"

text \<open>\<open>query q c\<close> awaits one statement: the statement is sent, then it succeeds or throws.\<close>

definition query :: "stmt \<Rightarrow> ctx \<Rightarrow> bool \<times> ctx" where
  "query q c = (case exec q (dbs c) of (ok, d) \<Rightarrow> (ok, emit (Sql q) (c\<lparr>dbs := d\<rparr>)))"

text \<open>Awaiting a query inside a handler: a database error rejects the handler's promise.\<close>

definition await :: "bool \<times> ctx \<Rightarrow> (ctx \<Rightarrow> outcome \<times> ctx) \<Rightarrow> outcome \<times> ctx" where
  "await r k = (case r of (True, c) \<Rightarrow> k c | (False, c) \<Rightarrow> (Unhandled DbError, c))"

subsection \<open>routes/topup.js\<close>

text \<open>
  \<^verbatim>\<open>POST /api/topup/create\<close>: inserts the pending top-up row, then asks the gateway for a
  bill whose external reference is \<^verbatim>\<open>topup_<id>\<close>.
\<close>

definition topup_create :: "gateway_outcome \<Rightarrow> numeric \<Rightarrow> int option \<Rightarrow> ctx \<Rightarrow> outcome \<times> ctx" where
  "topup_create gw amt user_id c =
     (let topupId = topups_id_seq (dbs c)
      in await (query (InsertTopup user_id amt ''pending'') c) (\<lambda>c1.
           let c2 = emit (GatewayCall topupId) c1
           in case gw of
                GwRejected \<Rightarrow> (Unhandled AxiosError, c2)
              | GwNull \<Rightarrow> (Unhandled TypeError, c2)
              | GwData url \<Rightarrow> (Responded 200 (PaymentJson url topupId), c2)))"

text \<open>
  The body of the gateway's callback request. The handler destructures
  \<^verbatim>\<open>billExternalReferenceNo\<close>, \<^verbatim>\<open>status\<close> and \<^verbatim>\<open>amount\<close>; \<open>signature\<close> stands for
  whatever authentication data the request carries besides, which the handler never
  reads. \<open>billExternalReferenceNo = None\<close> is a body without that field.
\<close>

record callback_body =
  billExternalReferenceNo :: "string option"
  status :: string
  cb_amount :: numeric
  signature :: "string option"

text \<open>
  \<^verbatim>\<open>POST /api/topup/callback\<close>. \<^verbatim>\<open>topup.rows[0].amount\<close> throws a TypeError when the
  \<^verbatim>\<open>SELECT\<close> found no row.
\<close>

definition topup_callback :: "callback_body \<Rightarrow> ctx \<Rightarrow> outcome \<times> ctx" where
  "topup_callback body c =
     (case billExternalReferenceNo body of
        None \<Rightarrow> (Unhandled TypeError, c)
      | Some ref \<Rightarrow>
          let topupId = parseInt (replace_first ''topup_'' '''' ref)
          in if status body = ''PAID''
             then await (query (UpdateTopupStatus ''paid'' topupId) c) (\<lambda>c1.
                  await (query (SelectTopup topupId) c1) (\<lambda>c2.
                    case first_row (\<lambda>r. Some (t_id r) = topupId) (topups (dbs c2)) of
                      None \<Rightarrow> (Unhandled TypeError, c2)
                    | Some topup \<Rightarrow>
                        await (query (CreditUser (amount topup) (t_user_id topup)) c2) (\<lambda>c3.
                          (Responded 200 (Text ''OK''), c3))))
             else (Responded 200 (Text ''OK''), c))"

subsection \<open>routes/orders.js\<close>

text \<open>
  \<^verbatim>\<open>POST /api/orders/buy\<close>, statement by statement: load the service, compare the
  balance with the price as doubles, call the provider wrapper chosen by
  \<^verbatim>\<open>service.provider\<close>, insert the order row with status \<^verbatim>\<open>waiting\<close>, then deduct
  the price. \<^verbatim>\<open>u.rows[0].wallet_balance\<close> throws when the user does not exist, and
  reading a field of a \<^verbatim>\<open>null\<close> provider answer throws as well.
\<close>

definition buy :: "provider_outcome \<Rightarrow> int \<Rightarrow> int \<Rightarrow> ctx \<Rightarrow> outcome \<times> ctx" where
  "buy prov user_id service_id c =
     await (query (SelectService service_id) c) (\<lambda>c1.
       case first_row (\<lambda>r. s_id r = service_id) (services (dbs c1)) of
         None \<Rightarrow> (Responded 400 (ErrorJson ''service not found''), c1)
       | Some service \<Rightarrow>
           await (query (SelectBalance user_id) c1) (\<lambda>c2.
             case first_row (\<lambda>r. u_id r = user_id) (users (dbs c2)) of
               None \<Rightarrow> (Unhandled TypeError, c2)
             | Some u \<Rightarrow>
                 if js_lt (parseFloat (wallet_balance u)) (parseFloat (price service))
                 then (Responded 402 (ErrorJson ''insufficient balance''), c2)
                 else
                   let c3 = emit (ProviderCall (if provider service = ''CyberYozh''
                                                then ''cyberyozh'' else ''grizzlysms'')
                                               (code service)) c2
                   in case prov of
                        Rejected \<Rightarrow> (Unhandled AxiosError, c3)
                      | ResolvedNull \<Rightarrow> (Unhandled TypeError, c3)
                      | Resolved providerResult \<Rightarrow>
                          let new_id = orders_id_seq (dbs c3)
                          in await (query (InsertOrder user_id service_id (provider service)
                                             (js_or (order_id providerResult) (id' providerResult))
                                             (js_or (number providerResult) None) ''waiting'') c3) (\<lambda>c4.
                             await (query (DebitUser (price service) user_id) c4) (\<lambda>c5.
                               (Responded 200 (OrderJson new_id providerResult), c5)))))"

subsection \<open>routes/auth.js and routes/admin.js\<close>

text \<open>
  \<^verbatim>\<open>bcrypt\<close> is outside the model: registration takes the hash it computed, login the
  verdict of \<^verbatim>\<open>bcrypt.compare\<close>.
\<close>

definition register :: "string \<Rightarrow> string option \<Rightarrow> string \<Rightarrow> ctx \<Rightarrow> outcome \<times> ctx" where
  "register e ph hash c =
     (let new_id = users_id_seq (dbs c)
      in await (query (InsertUser e ph hash) c) (\<lambda>c1. (Responded 200 (UserJson new_id e), c1)))"

definition login :: "string \<Rightarrow> bool \<Rightarrow> ctx \<Rightarrow> outcome \<times> ctx" where
  "login e ok c =
     await (query (SelectUserByEmail e) c) (\<lambda>c1.
       case first_row (\<lambda>r. email r = e) (users (dbs c1)) of
         None \<Rightarrow> (Responded 401 (ErrorJson ''user not found''), c1)
       | Some user \<Rightarrow>
           if \<not> ok then (Responded 401 (ErrorJson ''wrong password''), c1)
           else (Responded 200 (TokenJson (u_id user) (role user)), c1))"

definition set_price :: "int \<Rightarrow> numeric \<Rightarrow> ctx \<Rightarrow> outcome \<times> ctx" where
  "set_price service_id p c =
     await (query (UpdateServicePrice p service_id) c) (\<lambda>c1. (Responded 200 OkJson, c1))"

subsection \<open>Requests and runs\<close>

text \<open>One constructor per route of the server, with the answers of the services it awaits.\<close>

datatype request =
    Register string "string option" string
  | Login string bool
  | TopupCreate gateway_outcome numeric "int option"
  | TopupCallback callback_body
  | Buy provider_outcome int int
  | SetPrice int numeric

fun handle :: "request \<Rightarrow> ctx \<Rightarrow> outcome \<times> ctx" where
  "handle (Register e ph hash) c = register e ph hash c"
| "handle (Login e ok) c = login e ok c"
| "handle (TopupCreate gw amt uid) c = topup_create gw amt uid c"
| "handle (TopupCallback body) c = topup_callback body c"
| "handle (Buy prov uid sid) c = buy prov uid sid c"
| "handle (SetPrice sid p) c = set_price sid p c"

text \<open>Requests served one after the other, each to completion.\<close>

fun run :: "request list \<Rightarrow> ctx \<Rightarrow> ctx" where
  "run [] c = c"
| "run (r # rs) c = run rs (snd (handle r c))"

text \<open>What \<^verbatim>\<open>SELECT wallet_balance FROM users WHERE id=$1\<close> reads for a user.\<close>

definition balance_of :: "db \<Rightarrow> int \<Rightarrow> numeric option" where
  "balance_of d uid = map_option wallet_balance (first_row (\<lambda>r. u_id r = uid) (users d))"

subsection \<open>The buy route between its awaits\<close>

text \<open>
  Node runs a handler until its next \<^verbatim>\<open>await\<close> and is then free to run another
  request's handler. A purchase in flight is therefore at one of these points, holding
  the locals it has computed so far; \<open>buy_step\<close> completes the awaited operation and
  runs the handler to its next \<^verbatim>\<open>await\<close>.
\<close>

datatype buy_task =
    BuyStart provider_outcome int int
  | BuyGotService provider_outcome int int service_row
  | BuyCalling provider_outcome int int service_row
  | BuyGotNumber int int service_row provider_data
  | BuyInserted int service_row int provider_data
  | BuyDone outcome

fun buy_step :: "buy_task \<Rightarrow> ctx \<Rightarrow> buy_task \<times> ctx" where
  "buy_step (BuyStart prov user_id service_id) c =
     (case query (SelectService service_id) c of
        (False, c1) \<Rightarrow> (BuyDone (Unhandled DbError), c1)
      | (True, c1) \<Rightarrow>
          (case first_row (\<lambda>r. s_id r = service_id) (services (dbs c1)) of
             None \<Rightarrow> (BuyDone (Responded 400 (ErrorJson ''service not found'')), c1)
           | Some service \<Rightarrow> (BuyGotService prov user_id service_id service, c1)))"
| "buy_step (BuyGotService prov user_id service_id service) c =
     (case query (SelectBalance user_id) c of
        (False, c2) \<Rightarrow> (BuyDone (Unhandled DbError), c2)
      | (True, c2) \<Rightarrow>
          (case first_row (\<lambda>r. u_id r = user_id) (users (dbs c2)) of
             None \<Rightarrow> (BuyDone (Unhandled TypeError), c2)
           | Some u \<Rightarrow>
               if js_lt (parseFloat (wallet_balance u)) (parseFloat (price service))
               then (BuyDone (Responded 402 (ErrorJson ''insufficient balance'')), c2)
               else (BuyCalling prov user_id service_id service,
                     emit (ProviderCall (if provider service = ''CyberYozh''
                                         then ''cyberyozh'' else ''grizzlysms'')
                                        (code service)) c2)))"
| "buy_step (BuyCalling prov user_id service_id service) c =
     (case prov of
        Rejected \<Rightarrow> (BuyDone (Unhandled AxiosError), c)
      | ResolvedNull \<Rightarrow> (BuyDone (Unhandled TypeError), c)
      | Resolved providerResult \<Rightarrow> (BuyGotNumber user_id service_id service providerResult, c))"
| "buy_step (BuyGotNumber user_id service_id service providerResult) c =
     (let new_id = orders_id_seq (dbs c)
      in case query (InsertOrder user_id service_id (provider service)
                       (js_or (order_id providerResult) (id' providerResult))
                       (js_or (number providerResult) None) ''waiting'') c of
           (False, c4) \<Rightarrow> (BuyDone (Unhandled DbError), c4)
         | (True, c4) \<Rightarrow> (BuyInserted user_id service new_id providerResult, c4))"
| "buy_step (BuyInserted user_id service new_id providerResult) c =
     (case query (DebitUser (price service) user_id) c of
        (False, c5) \<Rightarrow> (BuyDone (Unhandled DbError), c5)
      | (True, c5) \<Rightarrow> (BuyDone (Responded 200 (OrderJson new_id providerResult)), c5))"
| "buy_step (BuyDone out) c = (BuyDone out, c)"

text \<open>
  Two purchases in flight on the one database; the schedule says whose handler resumes
  next (\<open>False\<close> the first, \<open>True\<close> the second).
\<close>

fun interleave :: "bool list \<Rightarrow> buy_task \<Rightarrow> buy_task \<Rightarrow> ctx \<Rightarrow> buy_task \<times> buy_task \<times> ctx" where
  "interleave [] a b c = (a, b, c)"
| "interleave (False # sched) a b c = (case buy_step a c of (a', c') \<Rightarrow> interleave sched a' b c')"
| "interleave (True # sched) a b c = (case buy_step b c of (b', c') \<Rightarrow> interleave sched a b' c')"

text \<open>The first purchase runs through its five awaits, then the second.\<close>

definition serial :: "bool list" where
  "serial = replicate 5 False @ replicate 5 True"

text \<open>
  The second request arrives while the first awaits its provider: both balance checks
  run before either purchase inserts its order and deducts.
\<close>

definition racing :: "bool list" where
  "racing = [False, False, True, True, False, False, False, True, True, True]"

subsection \<open>Predicates used in the statements\<close>

text \<open>The double comparison of the buy route agrees with the exact comparison.\<close>

definition exact_lt :: "numeric \<Rightarrow> numeric \<Rightarrow> bool" where
  "exact_lt b p = (js_lt (parseFloat b) (parseFloat p) = (b < p))"

definition nonneg_balances :: "db \<Rightarrow> bool" where
  "nonneg_balances d = list_all (\<lambda>u. 0 \<le> wallet_balance u) (users d)"

definition nonneg_amounts :: "db \<Rightarrow> bool" where
  "nonneg_amounts d = list_all (\<lambda>t. 0 \<le> amount t) (topups d)"

text \<open>\<^verbatim>\<open>users.id\<close> is the primary key.\<close>

definition pk_users :: "db \<Rightarrow> bool" where
  "pk_users d = distinct (map u_id (users d))"

text \<open>Order rows as the buy route inserts them: waiting, no SMS code yet.\<close>

definition fresh_orders :: "order_row list \<Rightarrow> bool" where
  "fresh_orders new = list_all (\<lambda>row. o_status row = ''waiting'' \<and> sms_code row = None) new"

text \<open>The requests of the ledger core: payment confirmations and purchases.\<close>

fun core_request :: "request \<Rightarrow> bool" where
  "core_request (TopupCallback body) = True"
| "core_request (Buy prov uid sid) = True"
| "core_request _ = False"

text \<open>
  \<open>exact_request r d\<close>: if \<open>r\<close> is a purchase that reaches the balance check in \<open>d\<close>,
  the check compares exactly. \<open>exact_run\<close> asks it of every request of a run, in the
  database that request meets.
\<close>

fun exact_request :: "request \<Rightarrow> db \<Rightarrow> bool" where
  "exact_request (Buy prov uid sid) d =
     (case first_row (\<lambda>r. s_id r = sid) (services d) of
        None \<Rightarrow> True
      | Some service \<Rightarrow>
          (case first_row (\<lambda>r. u_id r = uid) (users d) of
             None \<Rightarrow> True
           | Some u \<Rightarrow> exact_lt (wallet_balance u) (price service)))"
| "exact_request _ d = True"

fun exact_run :: "request list \<Rightarrow> ctx \<Rightarrow> bool" where
  "exact_run [] c = True"
| "exact_run (r # rs) c = (exact_request r (dbs c) \<and> exact_run rs (snd (handle r c)))"

fun is_insert :: "effect \<Rightarrow> bool" where
  "is_insert (Sql (InsertUser e ph h)) = True"
| "is_insert (Sql (InsertTopup uid amt st)) = True"
| "is_insert (Sql (InsertOrder uid sid prov poid num st)) = True"
| "is_insert _ = False"

fun is_balance_update :: "effect \<Rightarrow> bool" where
  "is_balance_update (Sql (CreditUser amt uid)) = True"
| "is_balance_update (Sql (DebitUser amt uid)) = True"
| "is_balance_update _ = False"

fun is_provider_call :: "effect \<Rightarrow> bool" where
  "is_provider_call (ProviderCall m sc) = True"
| "is_provider_call _ = False"

fun is_credit :: "effect \<Rightarrow> bool" where
  "is_credit (Sql (CreditUser amt uid)) = True"
| "is_credit _ = False"

text \<open>A purchase in flight has been answered with the order (status 200).\<close>

fun is_success :: "buy_task \<Rightarrow> bool" where
  "is_success (BuyDone (Responded st (OrderJson new_id providerResult))) = (st = 200)"
| "is_success _ = False"

text \<open>
  The reference that \<^verbatim>\<open>POST /api/topup/create\<close> hands to the gateway for the top-up
  with id \<open>n\<close> is the template string \<^verbatim>\<open>topup_${topupId}\<close>: the prefix, then the id in
  decimal, without leading zeros, with a minus sign when negative. \<open>issued_reference
  ref n\<close> says that \<open>ref\<close> is that string.
\<close>

definition dec_digit :: "char \<Rightarrow> bool" where
  "dec_digit c = (48 \<le> (of_char c :: nat) \<and> (of_char c :: nat) \<le> 57)"

definition canonical_decimal :: "string \<Rightarrow> bool" where
  "canonical_decimal ds =
     (ds \<noteq> [] \<and> list_all dec_digit ds \<and> (if 1 < length ds then hd ds \<noteq> CHR ''0'' else True))"

definition issued_reference :: "string \<Rightarrow> int \<Rightarrow> bool" where
  "issued_reference ref n =
     (take 6 ref = ''topup_'' \<and>
      (if n < 0
       then take 1 (drop 6 ref) = ''-'' \<and> canonical_decimal (drop 7 ref)
            \<and> digits_value 10 (take_digits 10 (drop 7 ref)) = - n
       else canonical_decimal (drop 6 ref)
            \<and> digits_value 10 (take_digits 10 (drop 6 ref)) = n))"

text \<open>The reference of the event is the issued reference of no row of \<^verbatim>\<open>topups\<close>.\<close>

definition reference_unissued :: "callback_body \<Rightarrow> db \<Rightarrow> bool" where
  "reference_unissued body d =
     (case billExternalReferenceNo body of
        None \<Rightarrow> True
      | Some ref \<Rightarrow> list_all (\<lambda>t. \<not> issued_reference ref (t_id t)) (topups d))"

text \<open>
  The number that the callback parses from the reference is the id of no row of
  \<^verbatim>\<open>topups\<close> (or the body has no reference).
\<close>

definition parsed_id_unknown :: "callback_body \<Rightarrow> db \<Rightarrow> bool" where
  "parsed_id_unknown body d =
     (case billExternalReferenceNo body of
        None \<Rightarrow> True
      | Some ref \<Rightarrow>
          list_all (\<lambda>t. Some (t_id t) \<noteq> parseInt (replace_first ''topup_'' '''' ref)) (topups d))"

subsection \<open>Example data\<close>

definition alice :: "numeric \<Rightarrow> user_row" where
  "alice b = \<lparr>u_id = 1, email = ''alice@example.com'', phone = None, password_hash = ''$2b$10$h'',
              role = ''user'', wallet_balance = b\<rparr>"

definition telegram :: "numeric \<Rightarrow> service_row" where
  "telegram p = \<lparr>s_id = 1, code = ''tg'', name = ''Telegram'', provider = ''CyberYozh'',
                 provider_cost = 1, price = p, active = True\<rparr>"

definition topup1 :: topup_row where
  "topup1 = \<lparr>t_id = 1, t_user_id = Some 1, amount = 20, tx_ref = None, t_status = ''pending''\<rparr>"

text \<open>One user with balance \<open>b\<close>, one service with price \<open>p\<close>, one pending top-up of 20.\<close>

definition shop :: "numeric \<Rightarrow> numeric \<Rightarrow> ctx" where
  "shop b p = \<lparr>dbs = \<lparr>users = [alice b], services = [telegram p], topups = [topup1], orders = [],
                       users_id_seq = 2, topups_id_seq = 2, orders_id_seq = 1\<rparr>,
               trace = []\<rparr>"

definition paid :: "string \<Rightarrow> string option \<Rightarrow> callback_body" where
  "paid ref sig = \<lparr>billExternalReferenceNo = Some ref, status = ''PAID'', cb_amount = 20,
                   signature = sig\<rparr>"

definition allocated :: provider_outcome where
  "allocated = Resolved \<lparr>order_id = Some ''77'', id' = None, number = Some ''+60123456789''\<rparr>"

text \<open>
  The provider answers, but allocates nothing: the answer carries no order id and no
  number (a plain-text answer such as \<^verbatim>\<open>NO_NUMBERS\<close> has none of the fields read).
\<close>

definition no_numbers :: provider_outcome where
  "no_numbers = Resolved \<lparr>order_id = None, id' = None, number = None\<rparr>"

section \<open>Properties\<close>

subsection \<open>Evaluation rules\<close>

lemmas num_eval = parseFloat_def round_binary64_def binade_def rne_div_def compute_bitlen pow2_def Let_def

lemmas str_eval = parseInt_def digit_value_def digits_value_def ascii_space_def space2_def space3_def

lemma await_if: "await (ok, c) k = (if ok then k c else (Unhandled DbError, c))"
  by (simp add: await_def)

lemma query_alt:
  "query q c = (fst (exec q (dbs c)), emit (Sql q) (c\<lparr>dbs := snd (exec q (dbs c))\<rparr>))"
  by (simp add: query_def split: prod.splits)

lemmas handler_defs = await_if query_alt emit_def Let_def

lemmas h_eval = topup_callback_def buy_def await_def query_def emit_def first_row_def
  update_where_def int_param_def int4_def js_or_def balance_of_def Let_def

lemmas ex_eval = shop_def alice_def telegram_def topup1_def paid_def allocated_def

subsection \<open>Tables\<close>

lemma first_row_SomeD: "first_row P rows = Some r \<Longrightarrow> P r \<and> r \<in> set rows"
proof -
  assume a: "first_row P rows = Some r"
  then obtain rest where "filter P rows = r # rest"
    by (auto simp: first_row_def split: list.splits)
  then have "r \<in> set (filter P rows)" by simp
  then show ?thesis by simp
qed

lemma first_row_Nil [simp]: "first_row P [] = None"
  by (simp add: first_row_def)

lemma first_row_Cons:
  "first_row P (r # rows) = (if P r then Some r else first_row P rows)"
  by (simp add: first_row_def)

lemma first_row_None_iff: "first_row P rows = None \<longleftrightarrow> (\<forall>r\<in>set rows. \<not> P r)"
  by (induction rows) (simp_all add: first_row_Cons)

lemma first_row_append:
  "first_row P (xs @ ys) = (case first_row P xs of Some r \<Rightarrow> Some r | None \<Rightarrow> first_row P ys)"
  by (induction xs) (simp_all add: first_row_Cons)

lemma first_row_update_where:
  assumes "\<And>r. P (f r) = P r"
  shows "first_row P (update_where Q f rows) = map_option (\<lambda>r. if Q r then f r else r) (first_row P rows)"
  using assms by (induction rows) (simp_all add: first_row_Cons update_where_def)

lemma update_where_none: "\<forall>r\<in>set rows. \<not> P r \<Longrightarrow> update_where P f rows = rows"
  by (induction rows) (simp_all add: update_where_def)

lemma map_update_where: "(\<And>r. g (f r) = g r) \<Longrightarrow> map g (update_where P f rows) = map g rows"
  by (induction rows) (simp_all add: update_where_def)

lemma length_update_where [simp]: "length (update_where P f rows) = length rows"
  by (simp add: update_where_def)

lemma balance_of_credit:
  assumes "balance_of d uid = Some b"
  shows "balance_of (d\<lparr>users := update_where (\<lambda>r. Some (u_id r) = Some uid)
                          (\<lambda>r. r\<lparr>wallet_balance := wallet_balance r + a\<rparr>) (users d), topups := ts\<rparr>) uid
         = Some (b + a)"
proof -
  from assms obtain u where u: "first_row (\<lambda>r. u_id r = uid) (users d) = Some u" "wallet_balance u = b"
    by (auto simp: balance_of_def)
  then show ?thesis
    using first_row_SomeD[OF u(1)] by (simp add: balance_of_def first_row_update_where)
qed

subsection \<open>The buy route, case by case\<close>

lemma buy_no_service:
  assumes "first_row (\<lambda>r. s_id r = sid) (services (dbs c)) = None" and "int4 sid"
  shows "buy prov uid sid c =
           (Responded 400 (ErrorJson ''service not found''),
            c\<lparr>trace := trace c @ [Sql (SelectService sid)]\<rparr>)"
  using assms by (simp add: buy_def handler_defs)

lemma buy_no_user:
  assumes "first_row (\<lambda>r. s_id r = sid) (services (dbs c)) = Some s"
    and "first_row (\<lambda>r. u_id r = uid) (users (dbs c)) = None"
    and "int4 sid" and "int4 uid"
  shows "buy prov uid sid c =
           (Unhandled TypeError,
            c\<lparr>trace := trace c @ [Sql (SelectService sid), Sql (SelectBalance uid)]\<rparr>)"
  using assms by (simp add: buy_def handler_defs)

lemma buy_insufficient:
  assumes "first_row (\<lambda>r. s_id r = sid) (services (dbs c)) = Some s"
    and "first_row (\<lambda>r. u_id r = uid) (users (dbs c)) = Some u"
    and "js_lt (parseFloat (wallet_balance u)) (parseFloat (price s))"
    and "int4 sid" and "int4 uid"
  shows "buy prov uid sid c =
           (Responded 402 (ErrorJson ''insufficient balance''),
            c\<lparr>trace := trace c @ [Sql (SelectService sid), Sql (SelectBalance uid)]\<rparr>)"
  using assms by (simp add: buy_def handler_defs)

lemma buy_provider_fails:
  assumes "first_row (\<lambda>r. s_id r = sid) (services (dbs c)) = Some s"
    and "first_row (\<lambda>r. u_id r = uid) (users (dbs c)) = Some u"
    and "\<not> js_lt (parseFloat (wallet_balance u)) (parseFloat (price s))"
    and "prov = Rejected \<or> prov = ResolvedNull"
    and "int4 sid" and "int4 uid"
  shows "buy prov uid sid c =
           (Unhandled (if prov = Rejected then AxiosError else TypeError),
            c\<lparr>trace := trace c @ [Sql (SelectService sid), Sql (SelectBalance uid),
                                   ProviderCall (if provider s = ''CyberYozh'' then ''cyberyozh'' else ''grizzlysms'') (code s)]\<rparr>)"
  using assms by (auto simp add: buy_def handler_defs)

lemma buy_success:
  assumes S: "first_row (\<lambda>r. s_id r = sid) (services (dbs c)) = Some s"
    and U: "first_row (\<lambda>r. u_id r = uid) (users (dbs c)) = Some u"
    and ok: "\<not> js_lt (parseFloat (wallet_balance u)) (parseFloat (price s))"
    and fresh: "orders_id_seq (dbs c) \<notin> set (map o_id (orders (dbs c)))"
    and rng: "int4 sid" "int4 uid" "int4 (orders_id_seq (dbs c))"
  shows "buy (Resolved pr) uid sid c =
           (Responded 200 (OrderJson (orders_id_seq (dbs c)) pr),
            \<lparr>dbs = (dbs c)\<lparr>users := update_where (\<lambda>r. u_id r = uid)
                                   (\<lambda>r. r\<lparr>wallet_balance := wallet_balance r - price s\<rparr>) (users (dbs c)),
                           orders := orders (dbs c) @
                             [\<lparr>o_id = orders_id_seq (dbs c), o_user_id = uid, o_service_id = sid,
                               o_provider = provider s,
                               provider_order_id = js_or (order_id pr) (id' pr),
                               virtual_number = js_or (number pr) None,
                               sms_code = None, o_status = ''waiting''\<rparr>],
                           orders_id_seq := orders_id_seq (dbs c) + 1\<rparr>,
             trace = trace c @ [Sql (SelectService sid), Sql (SelectBalance uid),
                                ProviderCall (if provider s = ''CyberYozh'' then ''cyberyozh'' else ''grizzlysms'') (code s),
                                Sql (InsertOrder uid sid (provider s) (js_or (order_id pr) (id' pr))
                                       (js_or (number pr) None) ''waiting''),
                                Sql (DebitUser (price s) uid)]\<rparr>)"
proof -
  from S have s_in: "sid \<in> set (map s_id (services (dbs c)))"
    by (auto dest!: first_row_SomeD)
  from U have u_in: "uid \<in> set (map u_id (users (dbs c)))"
    by (auto dest!: first_row_SomeD)
  show ?thesis
    using S U ok fresh rng s_in u_in by (simp add: buy_def handler_defs)
qed

lemma buy_pk_violation:
  assumes S: "first_row (\<lambda>r. s_id r = sid) (services (dbs c)) = Some s"
    and U: "first_row (\<lambda>r. u_id r = uid) (users (dbs c)) = Some u"
    and ok: "\<not> js_lt (parseFloat (wallet_balance u)) (parseFloat (price s))"
    and used: "orders_id_seq (dbs c) \<in> set (map o_id (orders (dbs c)))"
    and rng: "int4 sid" "int4 uid" "int4 (orders_id_seq (dbs c))"
  shows "dbs (snd (buy (Resolved pr) uid sid c)) = (dbs c)\<lparr>orders_id_seq := orders_id_seq (dbs c) + 1\<rparr>
       \<and> fst (buy (Resolved pr) uid sid c) = Unhandled DbError"
  using assms by (simp add: buy_def handler_defs)

subsection \<open>The callback route, case by case\<close>

lemma callback_no_ref:
  "billExternalReferenceNo body = None \<Longrightarrow> topup_callback body c = (Unhandled TypeError, c)"
  by (simp add: topup_callback_def)

lemma callback_not_paid:
  "billExternalReferenceNo body = Some ref \<Longrightarrow> status body \<noteq> ''PAID'' \<Longrightarrow>
   topup_callback body c = (Responded 200 (Text ''OK''), c)"
  by (simp add: topup_callback_def)

lemma callback_bad_param:
  assumes "billExternalReferenceNo body = Some ref" and "status body = ''PAID''"
    and "\<not> int_param (parseInt (replace_first ''topup_'' '''' ref))"
  shows "topup_callback body c =
           (Unhandled DbError,
            c\<lparr>trace := trace c @ [Sql (UpdateTopupStatus ''paid'' (parseInt (replace_first ''topup_'' '''' ref)))]\<rparr>)"
  using assms by (simp add: topup_callback_def handler_defs)

lemma callback_unknown_paid:
  assumes "billExternalReferenceNo body = Some ref" and "status body = ''PAID''"
    and "int_param (parseInt (replace_first ''topup_'' '''' ref))"
    and "\<forall>t\<in>set (topups (dbs c)). Some (t_id t) \<noteq> parseInt (replace_first ''topup_'' '''' ref)"
  shows "topup_callback body c =
           (Unhandled TypeError,
            c\<lparr>trace := trace c @ [Sql (UpdateTopupStatus ''paid'' (parseInt (replace_first ''topup_'' '''' ref))),
                                   Sql (SelectTopup (parseInt (replace_first ''topup_'' '''' ref)))]\<rparr>)"
proof -
  let ?tid = "parseInt (replace_first ''topup_'' '''' ref)"
  have upd: "update_where (\<lambda>r. Some (t_id r) = ?tid) (\<lambda>r. r\<lparr>t_status := ''paid''\<rparr>) (topups (dbs c)) = topups (dbs c)"
    using assms(4) by (intro update_where_none) simp
  have none: "first_row (\<lambda>r. Some (t_id r) = ?tid) (topups (dbs c)) = None"
    using assms(4) by (simp add: first_row_None_iff)
  show ?thesis
    using assms(1-3) upd none by (simp add: topup_callback_def handler_defs)
qed

lemma callback_paid:
  assumes ref: "billExternalReferenceNo body = Some ref" and st: "status body = ''PAID''"
    and tid: "parseInt (replace_first ''topup_'' '''' ref) = Some tid" and rng: "int4 tid"
    and T: "first_row (\<lambda>r. t_id r = tid) (topups (dbs c)) = Some t"
  shows "topup_callback body c =
           (Responded 200 (Text ''OK''),
            \<lparr>dbs = (dbs c)\<lparr>users := update_where (\<lambda>r. Some (u_id r) = t_user_id t)
                                   (\<lambda>r. r\<lparr>wallet_balance := wallet_balance r + amount t\<rparr>) (users (dbs c)),
                           topups := update_where (\<lambda>r. t_id r = tid)
                                   (\<lambda>r. r\<lparr>t_status := ''paid''\<rparr>) (topups (dbs c))\<rparr>,
             trace = trace c @ [Sql (UpdateTopupStatus ''paid'' (Some tid)), Sql (SelectTopup (Some tid)),
                                Sql (CreditUser (amount t) (t_user_id t))]\<rparr>)"
proof -
  have "first_row (\<lambda>r. t_id r = tid) (update_where (\<lambda>r. t_id r = tid) (\<lambda>r. r\<lparr>t_status := ''paid''\<rparr>) (topups (dbs c)))
        = Some (t\<lparr>t_status := ''paid''\<rparr>)"
    using T first_row_SomeD[OF T] by (simp add: first_row_update_where)
  then show ?thesis
    using ref st tid rng by (simp add: topup_callback_def handler_defs int_param_def)
qed

subsection \<open>Payment confirmations\<close>

text \<open>
  C1, as the code has it: delivering the same PAID confirmation \<open>n\<close> times for an
  existing top-up whose user exists adds the stored top-up amount to that user's balance
  \<open>n\<close> times, once per delivery, and every delivery is answered \<^verbatim>\<open>OK\<close>. The handler
  sets the status to \<^verbatim>\<open>paid\<close> but never reads it.
\<close>

theorem replay_credits_each_delivery:
  assumes ref: "billExternalReferenceNo body = Some ref" and st: "status body = ''PAID''"
    and tid: "parseInt (replace_first ''topup_'' '''' ref) = Some tid" and rng: "int4 tid"
    and T: "first_row (\<lambda>r. t_id r = tid) (topups (dbs c)) = Some t"
    and owner: "t_user_id t = Some uid"
    and B: "balance_of (dbs c) uid = Some b"
  shows "balance_of (dbs (run (replicate n (TopupCallback body)) c)) uid = Some (b + of_nat n * amount t)
       \<and> (\<forall>k<n. fst (handle (TopupCallback body) (run (replicate k (TopupCallback body)) c))
                   = Responded 200 (Text ''OK''))"
  using T owner B
proof (induction n arbitrary: c t b)
  case 0
  then show ?case by simp
next
  case (Suc n)
  let ?c1 = "snd (topup_callback body c)"
  note step = callback_paid[OF ref st tid rng Suc.prems(1)]
  have T1: "first_row (\<lambda>r. t_id r = tid) (topups (dbs ?c1)) = Some (t\<lparr>t_status := ''paid''\<rparr>)"
    using Suc.prems(1) first_row_SomeD[OF Suc.prems(1)] by (simp add: step first_row_update_where)
  have B1: "balance_of (dbs ?c1) uid = Some (b + amount t)"
    using balance_of_credit[OF Suc.prems(3)] by (simp add: step Suc.prems(2))
  have IH: "balance_of (dbs (run (replicate n (TopupCallback body)) ?c1)) uid
              = Some (b + amount t + of_nat n * amount t)
          \<and> (\<forall>k<n. fst (handle (TopupCallback body) (run (replicate k (TopupCallback body)) ?c1))
                   = Responded 200 (Text ''OK''))"
    using Suc.IH[OF T1 _ B1] Suc.prems(2) by simp
  have bal: "balance_of (dbs (run (replicate (Suc n) (TopupCallback body)) c)) uid
               = Some (b + of_nat (Suc n) * amount t)"
    using IH by (simp add: algebra_simps)
  have ok: "fst (handle (TopupCallback body) (run (replicate k (TopupCallback body)) c))
               = Responded 200 (Text ''OK'')" if "k < Suc n" for k
  proof (cases k)
    case 0
    then show ?thesis by (simp add: step)
  next
    case (Suc j)
    with that IH show ?thesis by simp
  qed
  from bal ok show ?case by blast
qed

theorem replay_credits_each_delivery_witness:
  "balance_of (dbs (run (replicate 3 (TopupCallback (paid ''topup_1'' None))) (shop 0 10))) 1 = Some 60"
proof -
  have 1: "billExternalReferenceNo (paid ''topup_1'' None) = Some ''topup_1''" by (simp add: paid_def)
  have 2: "status (paid ''topup_1'' None) = ''PAID''" by (simp add: paid_def)
  have 3: "parseInt (replace_first ''topup_'' '''' ''topup_1'') = Some 1" by (simp add: str_eval)
  have 4: "int4 1" by (simp add: int4_def)
  have 5: "first_row (\<lambda>r. t_id r = 1) (topups (dbs (shop 0 10))) = Some topup1"
    by (simp add: first_row_def ex_eval)
  have 6: "t_user_id topup1 = Some 1" by (simp add: topup1_def)
  have 7: "balance_of (dbs (shop 0 10)) 1 = Some 0" by (simp add: balance_of_def first_row_def ex_eval)
  have 8: "amount topup1 = 20" by (simp add: topup1_def)
  show ?thesis
    using replay_credits_each_delivery[OF 1 2 3 4 5 6 7, of 3] 8 by simp
qed

text \<open>
  C1 as stated (the balance grows by the amount exactly once) fails: two deliveries of
  the confirmation of a top-up of 20 take the balance from 0 to 40.
\<close>

theorem replay_double_credit:
  "balance_of (dbs (shop 0 10)) 1 = Some 0
   \<and> balance_of (dbs (run [TopupCallback (paid ''topup_1'' None), TopupCallback (paid ''topup_1'' None)]
                       (shop 0 10))) 1 = Some 40"
  by (simp add: h_eval str_eval ex_eval)

text \<open>
  An issued reference parses to the id it was issued for, so a reference whose parsed
  number names no top-up is the issued reference of no top-up.
\<close>

lemma digit_value_dec: "dec_digit c \<Longrightarrow> digit_value c = Some (of_char c - 48) \<and> of_char c - 48 < (10::nat)"
  by (auto simp: dec_digit_def digit_value_def Let_def)

lemma take_digits_dec:
  "list_all dec_digit ds \<Longrightarrow> take_digits 10 ds = map (\<lambda>c. of_char c - 48) ds"
  by (induction ds) (simp_all add: digit_value_dec)

lemma dec_digit_not_space:
  assumes "dec_digit c"
  shows "\<not> ascii_space (of_char c)" and "\<not> space2 (of_char c) bs" and "\<not> space3 (of_char c) bs"
  using assms
  by (auto simp: dec_digit_def ascii_space_def space2_def space3_def split: list.splits)

lemma dec_digit_plain:
  assumes "dec_digit c"
  shows "c \<noteq> CHR ''-''" and "c \<noteq> CHR ''+''" and "c \<noteq> CHR ''x''" and "c \<noteq> CHR ''X''"
  using assms by (auto simp: dec_digit_def)

lemma canonical_no_hex:
  assumes "list_all dec_digit ds"
  shows "take 2 ds \<noteq> ''0x''" and "take 2 ds \<noteq> ''0X''"
proof -
  show "take 2 ds \<noteq> ''0x''"
  proof (cases ds)
    case Nil
    then show ?thesis by simp
  next
    case (Cons c cs)
    show ?thesis
    proof (cases cs)
      case Nil
      with Cons show ?thesis by simp
    next
      case c2: (Cons c2 cs2)
      with Cons assms have "dec_digit c2" by simp
      with Cons c2 show ?thesis using dec_digit_plain(3)[of c2] by simp
    qed
  qed
  show "take 2 ds \<noteq> ''0X''"
  proof (cases ds)
    case Nil
    then show ?thesis by simp
  next
    case (Cons c cs)
    show ?thesis
    proof (cases cs)
      case Nil
      with Cons show ?thesis by simp
    next
      case c2: (Cons c2 cs2)
      with Cons assms have "dec_digit c2" by simp
      with Cons c2 show ?thesis using dec_digit_plain(4)[of c2] by simp
    qed
  qed
qed

lemma parseInt_canonical:
  assumes "canonical_decimal ds"
  shows "parseInt ds = Some (digits_value 10 (take_digits 10 ds))"
proof -
  from assms obtain c cs where ds: "ds = c # cs" and c: "dec_digit c" and all: "list_all dec_digit ds"
    by (cases ds) (auto simp: canonical_decimal_def)
  have trim: "trim_start ds = ds"
    using c by (simp add: ds dec_digit_not_space)
  have sign: "(case ds of [] \<Rightarrow> (1::int, ds)
               | c # cs \<Rightarrow> if c = CHR ''-'' then (- 1, cs)
                           else if c = CHR ''+'' then (1, cs) else (1, ds)) = (1, ds)"
    using dec_digit_plain(1,2)[OF c] by (simp add: ds)
  have nonempty: "take_digits 10 ds \<noteq> []"
    using all by (simp add: ds take_digits_dec del: take_digits.simps)
  show ?thesis
    unfolding parseInt_def Let_def trim sign
    using nonempty canonical_no_hex[OF all] by simp
qed

lemma parseInt_minus_canonical:
  assumes "canonical_decimal ds"
  shows "parseInt (CHR ''-'' # ds) = Some (- digits_value 10 (take_digits 10 ds))"
proof -
  from assms have all: "list_all dec_digit ds" and ne: "ds \<noteq> []"
    by (auto simp: canonical_decimal_def)
  have trim: "trim_start (CHR ''-'' # ds) = CHR ''-'' # ds"
    by (simp add: ascii_space_def space2_def space3_def split: list.splits)
  have sign: "(case CHR ''-'' # ds of [] \<Rightarrow> (1::int, CHR ''-'' # ds)
               | c # cs \<Rightarrow> if c = CHR ''-'' then (- 1, cs)
                           else if c = CHR ''+'' then (1, cs) else (1, CHR ''-'' # ds)) = (- 1, ds)"
    by simp
  have nonempty: "take_digits 10 ds \<noteq> []"
    using all ne by (cases ds) (simp_all add: take_digits_dec del: take_digits.simps)
  show ?thesis
    unfolding parseInt_def Let_def trim sign
    using nonempty canonical_no_hex[OF all] by simp
qed

lemma replace_first_topup:
  "take 6 ref = ''topup_'' \<Longrightarrow> replace_first ''topup_'' '''' ref = drop 6 ref"
  by (cases ref) (simp_all add: eval_nat_numeral)

lemma issued_reference_parses:
  assumes "issued_reference ref n"
  shows "parseInt (replace_first ''topup_'' '''' ref) = Some n"
proof -
  from assms have pre: "take 6 ref = ''topup_''" by (simp add: issued_reference_def)
  then have r: "replace_first ''topup_'' '''' ref = drop 6 ref"
    by (rule replace_first_topup)
  show ?thesis
  proof (cases "n < 0")
    case False
    with assms have "canonical_decimal (drop 6 ref)"
      and "digits_value 10 (take_digits 10 (drop 6 ref)) = n"
      by (simp_all add: issued_reference_def)
    then show ?thesis by (simp add: r parseInt_canonical)
  next
    case True
    with assms have m: "take 1 (drop 6 ref) = ''-''" and can: "canonical_decimal (drop 7 ref)"
      and v: "digits_value 10 (take_digits 10 (drop 7 ref)) = - n"
      by (simp_all add: issued_reference_def)
    have "drop 7 ref = drop 1 (drop 6 ref)" by simp
    with m have "drop 6 ref = CHR ''-'' # drop 7 ref"
      by (cases "drop 6 ref") simp_all
    then show ?thesis
      using parseInt_minus_canonical[OF can] v by (simp add: r)
  qed
qed

lemma parsed_id_unknown_unissued:
  assumes "parsed_id_unknown body d"
  shows "reference_unissued body d"
proof (cases "billExternalReferenceNo body")
  case None
  then show ?thesis by (simp add: reference_unissued_def)
next
  case (Some ref)
  have "\<not> issued_reference ref (t_id t)" if "t \<in> set (topups d)" for t
  proof
    assume "issued_reference ref (t_id t)"
    then have "parseInt (replace_first ''topup_'' '''' ref) = Some (t_id t)"
      by (rule issued_reference_parses)
    with assms Some that show False
      by (auto simp: parsed_id_unknown_def list_all_iff)
  qed
  with Some show ?thesis by (simp add: reference_unissued_def list_all_iff)
qed

text \<open>
  C8, as the code has it: no payment confirmation creates a top-up. When the body has
  no reference, or the number that the handler parses from the reference is the id of
  no top-up, no table is changed. An event whose status is not \<^verbatim>\<open>PAID\<close> changes
  nothing either, and when it carries a reference it is answered \<^verbatim>\<open>OK\<close> without the
  reference being looked up.
\<close>

theorem unknown_id_changes_nothing:
  "map t_id (topups (dbs (snd (topup_callback body c)))) = map t_id (topups (dbs c))
   \<and> (parsed_id_unknown body (dbs c) \<longrightarrow> dbs (snd (topup_callback body c)) = dbs c)
   \<and> (status body \<noteq> ''PAID'' \<longrightarrow>
        dbs (snd (topup_callback body c)) = dbs c
        \<and> (billExternalReferenceNo body \<noteq> None
             \<longrightarrow> fst (topup_callback body c) = Responded 200 (Text ''OK'')))"
proof -
  have ids: "map t_id (topups (dbs (snd (topup_callback body c)))) = map t_id (topups (dbs c))"
    by (auto simp: topup_callback_def handler_defs map_update_where split: option.splits)
  have unknown: "dbs (snd (topup_callback body c)) = dbs c" if u: "parsed_id_unknown body (dbs c)"
  proof (cases "billExternalReferenceNo body")
    case None
    then show ?thesis by (simp add: callback_no_ref)
  next
    case (Some ref)
    let ?tid = "parseInt (replace_first ''topup_'' '''' ref)"
    from u Some have unk: "\<forall>t\<in>set (topups (dbs c)). Some (t_id t) \<noteq> ?tid"
      by (simp add: parsed_id_unknown_def list_all_iff)
    show ?thesis
    proof (cases "status body = ''PAID''")
      case False
      with Some show ?thesis by (simp add: callback_not_paid)
    next
      case True
      show ?thesis
      proof (cases "int_param ?tid")
        case False
        with Some True show ?thesis by (simp add: callback_bad_param)
      next
        case ip: True
        with Some True unk show ?thesis by (simp add: callback_unknown_paid)
      qed
    qed
  qed
  have other: "dbs (snd (topup_callback body c)) = dbs c
        \<and> (billExternalReferenceNo body \<noteq> None
             \<longrightarrow> fst (topup_callback body c) = Responded 200 (Text ''OK''))"
    if "status body \<noteq> ''PAID''"
    using that by (cases "billExternalReferenceNo body") (simp_all add: callback_no_ref callback_not_paid)
  from ids unknown other show ?thesis by blast
qed

theorem unknown_id_changes_nothing_witness:
  "parsed_id_unknown (paid ''topup_99'' None) (dbs (shop 0 10))
   \<and> reference_unissued (paid ''topup_99'' None) (dbs (shop 0 10))
   \<and> dbs (snd (topup_callback (paid ''topup_99'' None) (shop 0 10))) = dbs (shop 0 10)"
proof -
  have u: "parsed_id_unknown (paid ''topup_99'' None) (dbs (shop 0 10))"
    by (simp add: parsed_id_unknown_def ex_eval str_eval)
  from u unknown_id_changes_nothing[of "paid ''topup_99'' None" "shop 0 10"]
    parsed_id_unknown_unissued[OF u]
  show ?thesis by simp
qed

text \<open>
  C8 as stated (an event whose reference matches no existing top-up is rejected and
  changes no state) fails: the PAID event with reference \<^verbatim>\<open>1abc\<close>, the issued reference
  of no top-up, is answered 200 \<^verbatim>\<open>OK\<close>; top-up 1 is marked paid and its user's balance
  goes from 0 to 20.
\<close>

theorem unissued_reference_is_credited:
  "reference_unissued (paid ''1abc'' None) (dbs (shop 0 10))
   \<and> balance_of (dbs (shop 0 10)) 1 = Some 0
   \<and> topup_callback (paid ''1abc'' None) (shop 0 10) =
       (Responded 200 (Text ''OK''),
        \<lparr>dbs = (dbs (shop 0 10))\<lparr>users := [alice 20], topups := [topup1\<lparr>t_status := ''paid''\<rparr>]\<rparr>,
         trace = [Sql (UpdateTopupStatus ''paid'' (Some 1)), Sql (SelectTopup (Some 1)),
                  Sql (CreditUser 20 (Some 1))]\<rparr>)"
  by (simp add: reference_unissued_def issued_reference_def h_eval str_eval ex_eval)

text \<open>The handler's answer and writes do not depend on the signature the request carries.\<close>

lemma callback_ignores_signature:
  "topup_callback (body\<lparr>signature := sig\<rparr>) c = topup_callback body c"
  by (cases "billExternalReferenceNo body") (simp_all add: topup_callback_def)

text \<open>
  C7 (an event whose signature fails verification is rejected before any lookup, and
  changes nothing) at a PAID event with a forged signature: the handler verifies
  nothing, marks the top-up paid, credits the user and answers \<^verbatim>\<open>OK\<close>.
\<close>

theorem forged_confirmation_is_credited:
  "topup_callback (paid ''topup_1'' (Some ''forged'')) (shop 0 10) =
     (Responded 200 (Text ''OK''),
      \<lparr>dbs = (dbs (shop 0 10))\<lparr>users := [alice 20], topups := [topup1\<lparr>t_status := ''paid''\<rparr>]\<rparr>,
       trace = [Sql (UpdateTopupStatus ''paid'' (Some 1)), Sql (SelectTopup (Some 1)),
                Sql (CreditUser 20 (Some 1))]\<rparr>)"
  by (simp add: h_eval str_eval ex_eval)

subsection \<open>The audit trail\<close>

text \<open>
  C5, as the code has it: a confirmation changes a balance through at most one
  \<^verbatim>\<open>UPDATE users\<close> and inserts no row in any table (the top-up rows keep their number,
  the orders are untouched); a purchase changes a balance through at most one
  \<^verbatim>\<open>UPDATE users\<close> and inserts at most one row, its order. The schema has no table of
  ledger entries.
\<close>

theorem balance_update_without_ledger_row:
  "filter is_insert (trace (snd (topup_callback body \<lparr>dbs = d, trace = []\<rparr>))) = []
   \<and> length (filter is_balance_update (trace (snd (topup_callback body \<lparr>dbs = d, trace = []\<rparr>)))) \<le> 1
   \<and> length (topups (dbs (snd (topup_callback body \<lparr>dbs = d, trace = []\<rparr>)))) = length (topups d)
   \<and> orders (dbs (snd (topup_callback body \<lparr>dbs = d, trace = []\<rparr>))) = orders d
   \<and> length (filter is_balance_update (trace (snd (buy prov uid sid \<lparr>dbs = d, trace = []\<rparr>)))) \<le> 1
   \<and> length (filter is_insert (trace (snd (buy prov uid sid \<lparr>dbs = d, trace = []\<rparr>)))) \<le> 1
   \<and> topups (dbs (snd (buy prov uid sid \<lparr>dbs = d, trace = []\<rparr>))) = topups d"
proof -
  have cb: "filter is_insert (trace (snd (topup_callback body \<lparr>dbs = d, trace = []\<rparr>))) = []
   \<and> length (filter is_balance_update (trace (snd (topup_callback body \<lparr>dbs = d, trace = []\<rparr>)))) \<le> 1
   \<and> length (topups (dbs (snd (topup_callback body \<lparr>dbs = d, trace = []\<rparr>)))) = length (topups d)
   \<and> orders (dbs (snd (topup_callback body \<lparr>dbs = d, trace = []\<rparr>))) = orders d"
    by (auto simp: topup_callback_def handler_defs split: option.splits)
  have b: "length (filter is_balance_update (trace (snd (buy prov uid sid \<lparr>dbs = d, trace = []\<rparr>)))) \<le> 1
   \<and> length (filter is_insert (trace (snd (buy prov uid sid \<lparr>dbs = d, trace = []\<rparr>)))) \<le> 1
   \<and> topups (dbs (snd (buy prov uid sid \<lparr>dbs = d, trace = []\<rparr>))) = topups d"
    by (auto simp: buy_def handler_defs split: option.splits provider_outcome.splits)
  from cb b show ?thesis by simp
qed

text \<open>
  C5 as stated (every balance mutation appends exactly one ledger entry) fails: the
  confirmation takes the balance from 0 to 20 and appends nothing anywhere.
\<close>

theorem credit_appends_no_row:
  "balance_of (dbs (shop 0 10)) 1 = Some 0
   \<and> balance_of (dbs (snd (topup_callback (paid ''topup_1'' None) (shop 0 10)))) 1 = Some 20
   \<and> filter is_insert (trace (snd (topup_callback (paid ''topup_1'' None) (shop 0 10)))) = []
   \<and> length (topups (dbs (snd (topup_callback (paid ''topup_1'' None) (shop 0 10))))) = 1
   \<and> orders (dbs (snd (topup_callback (paid ''topup_1'' None) (shop 0 10)))) = []"
  by (simp add: h_eval str_eval ex_eval)

subsection \<open>Purchases: the order of effects\<close>

text \<open>
  C2 (the balance is debited before any provider call) at a purchase by a user with
  balance 10 of a service priced 10: the provider is called third, the order is
  inserted fourth and the debit is the last statement.
\<close>

theorem provider_called_before_debit:
  "trace (snd (buy allocated 1 1 (shop 10 10))) =
     [Sql (SelectService 1), Sql (SelectBalance 1), ProviderCall ''cyberyozh'' ''tg'',
      Sql (InsertOrder 1 1 ''CyberYozh'' (Some ''77'') (Some ''+60123456789'') ''waiting''),
      Sql (DebitUser 10 1)]
   \<and> balance_of (dbs (snd (buy allocated 1 1 (shop 10 10)))) 1 = Some 0"
  by (simp add: h_eval num_eval ex_eval)

text \<open>In no purchase is a balance updated before the provider has been called.\<close>

lemma no_debit_before_provider_call:
  "filter is_balance_update
     (takeWhile (\<lambda>e. \<not> is_provider_call e) (trace (snd (buy prov uid sid \<lparr>dbs = d, trace = []\<rparr>)))) = []"
  by (auto simp: buy_def handler_defs split: option.splits provider_outcome.splits)

text \<open>
  The refusal itself is as the spec has it: it comes after the two \<^verbatim>\<open>SELECT\<close>s, before
  any provider call, and leaves the database as it was.
\<close>

lemma insufficient_balance_aborts:
  assumes "fst (buy prov uid sid c) = Responded 402 (ErrorJson ''insufficient balance'')"
  shows "dbs (snd (buy prov uid sid c)) = dbs c
       \<and> trace (snd (buy prov uid sid c)) = trace c @ [Sql (SelectService sid), Sql (SelectBalance uid)]"
  using assms
  by (auto simp: buy_def handler_defs split: option.splits provider_outcome.splits if_splits)

subsection \<open>Orders\<close>

lemma handle_orders:
  "\<exists>new. orders (dbs (snd (handle r c))) = orders (dbs c) @ new \<and> fresh_orders new"
proof (cases r)
  case (Register e ph h)
  then show ?thesis by (auto simp: register_def handler_defs fresh_orders_def)
next
  case (Login e ok)
  then show ?thesis by (auto simp: login_def handler_defs fresh_orders_def split: option.splits)
next
  case (TopupCreate gw amt uid)
  then show ?thesis
    by (auto simp: topup_create_def handler_defs fresh_orders_def split: gateway_outcome.splits)
next
  case (TopupCallback body)
  then show ?thesis
    by (auto simp: topup_callback_def handler_defs fresh_orders_def split: option.splits)
next
  case (Buy prov uid sid)
  then show ?thesis
    by (auto simp: buy_def handler_defs fresh_orders_def split: option.splits provider_outcome.splits)
next
  case (SetPrice sid p)
  then show ?thesis by (auto simp: set_price_def handler_defs fresh_orders_def)
qed

lemma run_orders:
  "\<exists>new. orders (dbs (run rs c)) = orders (dbs c) @ new \<and> fresh_orders new"
proof (induction rs arbitrary: c)
  case Nil
  then show ?case by (simp add: fresh_orders_def)
next
  case (Cons r rs)
  obtain n1 where n1: "orders (dbs (snd (handle r c))) = orders (dbs c) @ n1" "fresh_orders n1"
    using handle_orders by blast
  obtain n2 where n2: "orders (dbs (run rs (snd (handle r c)))) = orders (dbs (snd (handle r c))) @ n2"
      "fresh_orders n2"
    using Cons.IH by blast
  from n1 n2 have "orders (dbs (run (r # rs) c)) = orders (dbs c) @ (n1 @ n2)" "fresh_orders (n1 @ n2)"
    by (simp_all add: fresh_orders_def)
  then show ?case by blast
qed

text \<open>
  C10: after any sequence of requests to any of the six routes, the order rows that
  existed before are still there, in place and unchanged in every column (status,
  \<^verbatim>\<open>sms_code\<close> and \<^verbatim>\<open>virtual_number\<close> among them), and every row added since has
  status \<^verbatim>\<open>waiting\<close> and no SMS code. No route moves an order to \<^verbatim>\<open>received\<close>,
  \<^verbatim>\<open>expired\<close>, \<^verbatim>\<open>cancelled\<close> or \<^verbatim>\<open>refunded\<close>.
\<close>

theorem orders_waiting_and_never_changed:
  "take (length (orders (dbs c))) (orders (dbs (run rs c))) = orders (dbs c)
   \<and> fresh_orders (drop (length (orders (dbs c))) (orders (dbs (run rs c))))"
proof -
  obtain new where "orders (dbs (run rs c)) = orders (dbs c) @ new" "fresh_orders new"
    using run_orders by blast
  then show ?thesis by simp
qed

theorem orders_waiting_and_never_changed_witness:
  "fresh_orders (orders (dbs (run [Buy allocated 1 1, TopupCallback (paid ''topup_1'' None)] (shop 10 10))))
   \<and> length (orders (dbs (run [Buy allocated 1 1, TopupCallback (paid ''topup_1'' None)] (shop 10 10)))) = 1"
proof -
  have "orders (dbs (shop 10 10)) = []" by (simp add: shop_def)
  with orders_waiting_and_never_changed[of "shop 10 10" "[Buy allocated 1 1, TopupCallback (paid ''topup_1'' None)]"]
  have "fresh_orders (orders (dbs (run [Buy allocated 1 1, TopupCallback (paid ''topup_1'' None)] (shop 10 10))))"
    by simp
  moreover have "length (orders (dbs (run [Buy allocated 1 1, TopupCallback (paid ''topup_1'' None)] (shop 10 10)))) = 1"
    by (simp add: h_eval num_eval str_eval ex_eval)
  ultimately show ?thesis by simp
qed

subsection \<open>Purchases: what a failed allocation leaves behind\<close>

text \<open>
  A purchase either is answered with the order, and then it has inserted the order row
  and deducted the price; or it is not, and then users, services, top-ups and orders
  are as before.
\<close>

lemma buy_effect:
  "(fst (buy prov uid sid c) = Responded 200 r \<longrightarrow>
      (\<exists>pr s u. prov = Resolved pr
         \<and> first_row (\<lambda>r. s_id r = sid) (services (dbs c)) = Some s
         \<and> first_row (\<lambda>r. u_id r = uid) (users (dbs c)) = Some u
         \<and> \<not> js_lt (parseFloat (wallet_balance u)) (parseFloat (price s))
         \<and> r = OrderJson (orders_id_seq (dbs c)) pr
         \<and> dbs (snd (buy prov uid sid c)) =
             (dbs c)\<lparr>users := update_where (\<lambda>r. u_id r = uid)
                                 (\<lambda>r. r\<lparr>wallet_balance := wallet_balance r - price s\<rparr>) (users (dbs c)),
                      orders := orders (dbs c) @
                        [\<lparr>o_id = orders_id_seq (dbs c), o_user_id = uid, o_service_id = sid,
                          o_provider = provider s,
                          provider_order_id = js_or (order_id pr) (id' pr),
                          virtual_number = js_or (number pr) None,
                          sms_code = None, o_status = ''waiting''\<rparr>],
                      orders_id_seq := orders_id_seq (dbs c) + 1\<rparr>))
   \<and> ((\<forall>r. fst (buy prov uid sid c) \<noteq> Responded 200 r) \<longrightarrow>
        users (dbs (snd (buy prov uid sid c))) = users (dbs c)
      \<and> services (dbs (snd (buy prov uid sid c))) = services (dbs c)
      \<and> topups (dbs (snd (buy prov uid sid c))) = topups (dbs c)
      \<and> orders (dbs (snd (buy prov uid sid c))) = orders (dbs c))"
  by (auto simp: buy_def handler_defs split: option.splits provider_outcome.splits if_splits)

lemma buy_issues_no_credit:
  "filter is_credit (trace (snd (buy prov uid sid c))) = filter is_credit (trace c)"
  by (auto simp: buy_def handler_defs split: option.splits provider_outcome.splits)

lemma buy_throw_no_success:
  assumes "prov = Rejected \<or> prov = ResolvedNull"
  shows "\<forall>r. fst (buy prov uid sid c) \<noteq> Responded 200 r"
  using assms by (auto simp: buy_def handler_defs split: option.splits)

text \<open>
  C3, as the code has it: no purchase attempt issues a compensating credit, and none
  creates or leaves an order with a status other than \<^verbatim>\<open>waiting\<close>, so no order reaches
  \<^verbatim>\<open>refunded\<close>. When the provider call throws (its promise rejects, or resolves with
  \<^verbatim>\<open>null\<close>) the attempt is not answered with success and creates no order. When the
  provider answers and the purchase is answered with success, the price has been
  deducted from the balance and the order stored as \<^verbatim>\<open>waiting\<close>, whatever the answer
  holds: an answer without a number gives an order whose \<^verbatim>\<open>virtual_number\<close> is
  \<^verbatim>\<open>NULL\<close>.
\<close>

theorem failed_allocation_is_not_compensated:
  "filter is_credit (trace (snd (buy prov uid sid c))) = filter is_credit (trace c)
   \<and> take (length (orders (dbs c))) (orders (dbs (snd (buy prov uid sid c)))) = orders (dbs c)
   \<and> fresh_orders (drop (length (orders (dbs c))) (orders (dbs (snd (buy prov uid sid c)))))
   \<and> (prov = Rejected \<or> prov = ResolvedNull \<longrightarrow>
        orders (dbs (snd (buy prov uid sid c))) = orders (dbs c)
        \<and> (\<forall>r. fst (buy prov uid sid c) \<noteq> Responded 200 r))
   \<and> (prov = Resolved pr \<and> fst (buy prov uid sid c) = Responded 200 r
        \<and> first_row (\<lambda>r. s_id r = sid) (services (dbs c)) = Some s
        \<and> balance_of (dbs c) uid = Some b \<longrightarrow>
        balance_of (dbs (snd (buy prov uid sid c))) uid = Some (b - price s)
        \<and> orders (dbs (snd (buy prov uid sid c))) = orders (dbs c) @
             [\<lparr>o_id = orders_id_seq (dbs c), o_user_id = uid, o_service_id = sid,
               o_provider = provider s,
               provider_order_id = js_or (order_id pr) (id' pr),
               virtual_number = js_or (number pr) None,
               sms_code = None, o_status = ''waiting''\<rparr>])"
proof -
  obtain new where new: "orders (dbs (snd (buy prov uid sid c))) = orders (dbs c) @ new"
      "fresh_orders new"
    using handle_orders[of "Buy prov uid sid" c] by auto
  have thrown: "orders (dbs (snd (buy prov uid sid c))) = orders (dbs c)
        \<and> (\<forall>r. fst (buy prov uid sid c) \<noteq> Responded 200 r)"
    if "prov = Rejected \<or> prov = ResolvedNull"
    using buy_throw_no_success[OF that] buy_effect[of prov uid sid c] by blast
  have charged: "balance_of (dbs (snd (buy prov uid sid c))) uid = Some (b - price s)
        \<and> orders (dbs (snd (buy prov uid sid c))) = orders (dbs c) @
             [\<lparr>o_id = orders_id_seq (dbs c), o_user_id = uid, o_service_id = sid,
               o_provider = provider s,
               provider_order_id = js_or (order_id pr) (id' pr),
               virtual_number = js_or (number pr) None,
               sms_code = None, o_status = ''waiting''\<rparr>]"
    if p: "prov = Resolved pr" and ok: "fst (buy prov uid sid c) = Responded 200 r"
      and S: "first_row (\<lambda>r. s_id r = sid) (services (dbs c)) = Some s"
      and B: "balance_of (dbs c) uid = Some b"
  proof -
    from buy_effect[of prov uid sid c r] ok obtain pr' s' u where
      e: "prov = Resolved pr'" "first_row (\<lambda>r. s_id r = sid) (services (dbs c)) = Some s'"
         "first_row (\<lambda>r. u_id r = uid) (users (dbs c)) = Some u"
      and d: "dbs (snd (buy prov uid sid c)) =
             (dbs c)\<lparr>users := update_where (\<lambda>r. u_id r = uid)
                                 (\<lambda>r. r\<lparr>wallet_balance := wallet_balance r - price s'\<rparr>) (users (dbs c)),
                      orders := orders (dbs c) @
                        [\<lparr>o_id = orders_id_seq (dbs c), o_user_id = uid, o_service_id = sid,
                          o_provider = provider s',
                          provider_order_id = js_or (order_id pr') (id' pr'),
                          virtual_number = js_or (number pr') None,
                          sms_code = None, o_status = ''waiting''\<rparr>],
                      orders_id_seq := orders_id_seq (dbs c) + 1\<rparr>"
      by blast
    from e p S have same: "pr' = pr" "s' = s" by simp_all
    from B e(3) have b: "wallet_balance u = b" by (simp add: balance_of_def)
    have "balance_of (dbs (snd (buy prov uid sid c))) uid = Some (b - price s)"
      using e(3) first_row_SomeD[OF e(3)] b
      by (simp add: d same balance_of_def first_row_update_where)
    then show ?thesis by (simp add: d same)
  qed
  from new have pre: "take (length (orders (dbs c))) (orders (dbs (snd (buy prov uid sid c)))) = orders (dbs c)"
    "fresh_orders (drop (length (orders (dbs c))) (orders (dbs (snd (buy prov uid sid c)))))"
    by simp_all
  from pre thrown charged buy_issues_no_credit[of prov uid sid c] show ?thesis by blast
qed

theorem failed_allocation_is_not_compensated_witness:
  "orders (dbs (snd (buy Rejected 1 1 (shop 10 10)))) = []
   \<and> fst (buy Rejected 1 1 (shop 10 10)) \<noteq> Responded 200 OkJson
   \<and> filter is_credit (trace (snd (buy no_numbers 1 1 (shop 10 10)))) = []
   \<and> balance_of (dbs (snd (buy no_numbers 1 1 (shop 10 10)))) 1 = Some 0
   \<and> map virtual_number (orders (dbs (snd (buy no_numbers 1 1 (shop 10 10))))) = [None]
   \<and> map o_status (orders (dbs (snd (buy no_numbers 1 1 (shop 10 10))))) = [''waiting'']"
proof -
  have o: "orders (dbs (shop 10 10)) = []" and t: "trace (shop 10 10) = []"
    by (simp_all add: shop_def)
  have S: "first_row (\<lambda>r. s_id r = 1) (services (dbs (shop 10 10))) = Some (telegram 10)"
    by (simp add: first_row_def shop_def telegram_def)
  have B: "balance_of (dbs (shop 10 10)) 1 = Some 10"
    by (simp add: balance_of_def first_row_def shop_def alice_def)
  have ok: "fst (buy no_numbers 1 1 (shop 10 10))
              = Responded 200 (OrderJson 1 \<lparr>order_id = None, id' = None, number = None\<rparr>)"
    by (simp add: h_eval num_eval ex_eval no_numbers_def)
  have p: "price (telegram 10) = 10" by (simp add: telegram_def)
  from failed_allocation_is_not_compensated[of Rejected 1 1 "shop 10 10"] o
  have 1: "orders (dbs (snd (buy Rejected 1 1 (shop 10 10)))) = []
           \<and> fst (buy Rejected 1 1 (shop 10 10)) \<noteq> Responded 200 OkJson"
    by simp
  from failed_allocation_is_not_compensated[of no_numbers 1 1 "shop 10 10"
      "\<lparr>order_id = None, id' = None, number = None\<rparr>"
      "OrderJson 1 \<lparr>order_id = None, id' = None, number = None\<rparr>" "telegram 10" 10]
    o t S B ok p
  have 2: "filter is_credit (trace (snd (buy no_numbers 1 1 (shop 10 10)))) = []
   \<and> balance_of (dbs (snd (buy no_numbers 1 1 (shop 10 10)))) 1 = Some 0
   \<and> map virtual_number (orders (dbs (snd (buy no_numbers 1 1 (shop 10 10))))) = [None]
   \<and> map o_status (orders (dbs (snd (buy no_numbers 1 1 (shop 10 10))))) = [''waiting'']"
    by (simp add: no_numbers_def js_or_def)
  from 1 2 show ?thesis by simp
qed

text \<open>
  C3 as stated (after a failed allocation the balance is restored and the order reaches
  \<^verbatim>\<open>refunded\<close>) fails: when the provider answers without allocating a number, the user
  with balance 10 is charged the price 10 and keeps balance 0, the order is stored as
  \<^verbatim>\<open>waiting\<close> with no number, and the trace holds no credit.
\<close>

theorem unallocated_purchase_is_charged:
  "balance_of (dbs (shop 10 10)) 1 = Some 10
   \<and> buy no_numbers 1 1 (shop 10 10) =
       (Responded 200 (OrderJson 1 \<lparr>order_id = None, id' = None, number = None\<rparr>),
        \<lparr>dbs = (dbs (shop 10 10))
                 \<lparr>users := [alice 0],
                  orders := [\<lparr>o_id = 1, o_user_id = 1, o_service_id = 1, o_provider = ''CyberYozh'',
                              provider_order_id = None, virtual_number = None, sms_code = None,
                              o_status = ''waiting''\<rparr>],
                  orders_id_seq := 2\<rparr>,
         trace = [Sql (SelectService 1), Sql (SelectBalance 1), ProviderCall ''cyberyozh'' ''tg'',
                  Sql (InsertOrder 1 1 ''CyberYozh'' None None ''waiting''),
                  Sql (DebitUser 10 1)]\<rparr>)"
  by (simp add: h_eval num_eval ex_eval no_numbers_def)

subsection \<open>parseFloat on integers\<close>

text \<open>
  Integers of magnitude up to \<open>2^53\<close> are binary64 values: \<^verbatim>\<open>parseFloat\<close> returns them
  unchanged, and the comparison of two of them as doubles is the exact comparison.
\<close>

lemma rne_div_one: "rne_div n 1 = n"
  by (simp add: rne_div_def)

lemma bitlen_one: "bitlen 1 = 1"
  by (simp add: compute_bitlen)

lemma binade_int:
  assumes "0 < n"
  shows "binade (of_int n) = bitlen n - 1"
proof -
  from assms have ge: "1 \<le> bitlen n"
    using bitlen_ge_iff_power[of 1 n] by simp
  have "(2::int) ^ nat (bitlen n - 1) \<le> n"
    using bitlen_bounds[OF assms] by simp
  then have "of_int ((2::int) ^ nat (bitlen n - 1)) \<le> (of_int n :: rat)"
    by (simp only: of_int_le_iff)
  then have "pow2 (bitlen n - 1) \<le> of_int n"
    using ge by (simp add: pow2_def)
  then show ?thesis
    by (simp add: binade_def bitlen_one)
qed

lemma round_binary64_small_int:
  assumes "0 < n" and "n < 2 ^ 53"
  shows "round_binary64 (of_int n) = Some (of_int n)"
proof -
  from assms have ge: "1 \<le> bitlen n"
    using bitlen_ge_iff_power[of 1 n] by simp
  from assms have le: "bitlen n \<le> 53"
    using bitlen_le_iff_power[of n 53] by simp
  define j where "j = nat (53 - bitlen n)"
  have s: "max (binade (of_int n)) (- 1022) - 52 = - int j"
    using ge le by (simp add: binade_int[OF assms(1)] j_def)
  have small: "(of_int n :: rat) < 2 ^ 1024"
  proof -
    have "n < (2::int) ^ 1024" using assms(2) by simp
    then have "(of_int n :: rat) < of_int ((2::int) ^ 1024)" by (simp only: of_int_less_iff)
    then show ?thesis by simp
  qed
  show ?thesis
  proof (cases "j = 0")
    case True
    with s small show ?thesis
      by (simp add: round_binary64_def rne_div_one pow2_def)
  next
    case False
    then have neg: "\<not> 0 \<le> - int j" by simp
    have v: "of_int (n * 2 ^ j) * (1 / 2 ^ j) = (of_int n :: rat)"
      by simp
    show ?thesis
      using s small neg v by (simp add: round_binary64_def rne_div_one pow2_def)
  qed
qed

lemma round_binary64_two53: "round_binary64 9007199254740992 = Some 9007199254740992"
  by (simp add: num_eval)

lemma round_binary64_int:
  assumes "0 < n" and "n \<le> 2 ^ 53"
  shows "round_binary64 (of_int n) = Some (of_int n)"
proof (cases "n = 2 ^ 53")
  case True
  then show ?thesis using round_binary64_two53 by simp
next
  case False
  with assms have "n < 2 ^ 53" by simp
  with assms(1) show ?thesis by (rule round_binary64_small_int)
qed

lemma parseFloat_int:
  assumes "\<bar>n\<bar> \<le> 2 ^ 53"
  shows "parseFloat (of_int n) = Finite (of_int n)"
proof -
  consider "n = 0" | "0 < n" | "n < 0" by linarith
  then show ?thesis
  proof cases
    case 1
    then show ?thesis by (simp add: parseFloat_def)
  next
    case 2
    with assms have "round_binary64 (of_int n) = Some (of_int n)"
      by (intro round_binary64_int) simp_all
    with 2 show ?thesis by (simp add: parseFloat_def)
  next
    case 3
    with assms have "round_binary64 (of_int (- n)) = Some (of_int (- n))"
      by (intro round_binary64_int) simp_all
    with 3 show ?thesis by (simp add: parseFloat_def)
  qed
qed

lemma exact_lt_int:
  assumes "\<bar>a\<bar> \<le> 2 ^ 53" and "\<bar>b\<bar> \<le> 2 ^ 53"
  shows "exact_lt (of_int a) (of_int b)"
  using assms by (simp add: exact_lt_def parseFloat_int)

subsection \<open>parseFloat is monotone\<close>

text \<open>
  \<open>round_binary64\<close> rounds to the grid of the argument's binade, and rounding to a grid
  is monotone and fixes the powers of two that separate the binades. Hence a larger
  decimal never parses to a smaller double, and the balance check never refuses a
  balance that covers the price.
\<close>

lemma pow2_powi: "pow2 k = 2 powi k"
  by (simp add: pow2_def power_int_def field_simps)

lemma pow2_pos [simp]: "0 < pow2 k"
  by (simp add: pow2_def)

lemma pow2_nonneg [simp]: "0 \<le> pow2 k"
  by (simp add: pow2_def)

lemma pow2_nz [simp]: "pow2 k \<noteq> 0"
  by (simp add: pow2_def)

lemma pow2_add: "pow2 (i + j) = pow2 i * pow2 j"
  by (simp add: pow2_powi power_int_add)

lemma pow2_mono: "i \<le> j \<Longrightarrow> pow2 i \<le> pow2 j"
  by (simp add: pow2_powi power_int_increasing)

lemma pow2_nat: "0 \<le> k \<Longrightarrow> pow2 k = of_int (2 ^ nat k)"
  by (simp add: pow2_def)

lemma rne_div_round:
  assumes "0 < d"
  shows "rne_div n d = round_half_even (of_int n / of_int d)"
proof -
  have fl: "\<lfloor>(of_int n / of_int d :: rat)\<rfloor> = n div d"
    by (simp add: floor_divide_of_int_eq)
  have "n div d * d + n mod d = n" by simp
  then have "(of_int (n div d * d + n mod d) :: rat) = of_int n" by (simp only:)
  then have eq: "(of_int (n div d) * of_int d + of_int (n mod d) :: rat) = of_int n"
    by (simp only: of_int_add of_int_mult)
  have "(of_int (n div d) * of_int d + of_int (n mod d)) / of_int d - of_int (n div d)
          = (of_int (n mod d) / of_int d :: rat)"
    using assms by (simp add: field_simps)
  then have frac: "(of_int n / of_int d :: rat) - of_int (n div d) = of_int (n mod d) / of_int d"
    by (simp only: eq)
  have lt: "((of_int (n mod d) / of_int d :: rat) < 1 / 2) = (2 * (n mod d) < d)"
  proof -
    have "((of_int (n mod d) / of_int d :: rat) < 1 / 2) = ((of_int (2 * (n mod d)) :: rat) < of_int d)"
      using assms by (simp add: field_simps)
    then show ?thesis by (simp only: of_int_less_iff)
  qed
  have gt: "(1 / 2 < (of_int (n mod d) / of_int d :: rat)) = (d < 2 * (n mod d))"
  proof -
    have "(1 / 2 < (of_int (n mod d) / of_int d :: rat)) = ((of_int d :: rat) < of_int (2 * (n mod d)))"
      using assms by (simp add: field_simps)
    then show ?thesis by (simp only: of_int_less_iff)
  qed
  show ?thesis
    unfolding rne_div_def round_half_even_def Let_def fl frac lt gt by simp
qed

lemma round_half_even_bounds: "\<lfloor>x\<rfloor> \<le> round_half_even x \<and> round_half_even x \<le> \<lfloor>x\<rfloor> + 1"
  by (simp add: round_half_even_def Let_def)

lemma round_half_even_mono:
  assumes "x \<le> y"
  shows "round_half_even x \<le> round_half_even y"
proof (cases "\<lfloor>x\<rfloor> = \<lfloor>y\<rfloor>")
  case False
  with assms have "\<lfloor>x\<rfloor> < \<lfloor>y\<rfloor>" using floor_mono[OF assms] by simp
  then have "\<lfloor>x\<rfloor> + 1 \<le> \<lfloor>y\<rfloor>" by simp
  with round_half_even_bounds[of x] round_half_even_bounds[of y] show ?thesis by linarith
next
  case True
  with assms have "x - of_int \<lfloor>x\<rfloor> \<le> y - of_int \<lfloor>y\<rfloor>" by simp
  with True show ?thesis
    by (auto simp: round_half_even_def Let_def)
qed

lemma round_half_even_int [simp]: "round_half_even (of_int n) = n"
  by (simp add: round_half_even_def)

lemma to_grid_mono: "x \<le> y \<Longrightarrow> to_grid s x \<le> to_grid s y"
proof -
  assume "x \<le> y"
  then have "x / pow2 s \<le> y / pow2 s" by (rule divide_right_mono) simp
  then have "round_half_even (x / pow2 s) \<le> round_half_even (y / pow2 s)"
    by (rule round_half_even_mono)
  then show ?thesis by (simp add: to_grid_def)
qed

lemma to_grid_pow2:
  assumes "s \<le> k"
  shows "to_grid s (pow2 k) = pow2 k"
proof -
  have split: "pow2 k = pow2 (k - s) * pow2 s"
    using pow2_add[of "k - s" s] by simp
  have int: "pow2 (k - s) = of_int (2 ^ nat (k - s))"
    using assms by (simp add: pow2_nat)
  from split have "pow2 k / pow2 s = pow2 (k - s)" by simp
  with int have q: "pow2 k / pow2 s = of_int (2 ^ nat (k - s))" by simp
  have "to_grid s (pow2 k) = of_int (round_half_even (of_int (2 ^ nat (k - s)))) * pow2 s"
    by (simp only: to_grid_def q)
  also have "\<dots> = of_int (2 ^ nat (k - s)) * pow2 s"
    by (simp only: round_half_even_int)
  also have "\<dots> = pow2 k"
    by (simp only: split int)
  finally show ?thesis .
qed

lemma to_grid_nonneg: "0 \<le> x \<Longrightarrow> 0 \<le> to_grid s x"
proof -
  assume "0 \<le> x"
  then have "0 \<le> x / pow2 s" by (rule divide_nonneg_nonneg) simp
  then have "round_half_even 0 \<le> round_half_even (x / pow2 s)" by (rule round_half_even_mono)
  then show ?thesis by (simp add: to_grid_def round_half_even_def)
qed

lemma bitlen_rat_bounds:
  assumes "0 < n"
  shows "pow2 (bitlen n - 1) \<le> of_int n" and "of_int n < pow2 (bitlen n)"
proof -
  from assms have ge: "1 \<le> bitlen n"
    using bitlen_ge_iff_power[of 1 n] by simp
  have "(2::int) ^ nat (bitlen n - 1) \<le> n" "n < 2 ^ nat (bitlen n)"
    using bitlen_bounds[OF assms] by simp_all
  then have "(of_int ((2::int) ^ nat (bitlen n - 1)) :: rat) \<le> of_int n"
    "(of_int n :: rat) < of_int (2 ^ nat (bitlen n))"
    by (simp_all only: of_int_le_iff of_int_less_iff)
  then show "pow2 (bitlen n - 1) \<le> of_int n" and "of_int n < pow2 (bitlen n)"
    using ge by (simp_all add: pow2_def)
qed

lemma binade_bounds:
  assumes "0 < a"
  shows "pow2 (binade a) \<le> a \<and> a < pow2 (binade a + 1)"
proof -
  obtain n d where q: "quotient_of a = (n, d)" by (cases "quotient_of a")
  then have d: "0 < d" by (rule quotient_of_denom_pos)
  from q have a: "a = of_int n / of_int d" by (rule quotient_of_div)
  with assms d have n: "0 < n" by (simp add: zero_less_divide_iff)
  let ?k = "bitlen n - bitlen d"
  from d have D: "(0::rat) < of_int d" by simp
  note bn = bitlen_rat_bounds[OF n] and bd = bitlen_rat_bounds[OF d]
  have "pow2 (?k - 1) * of_int d \<le> pow2 (?k - 1) * pow2 (bitlen d)"
    using bd(2) by (intro mult_left_mono) simp_all
  also have "\<dots> = pow2 (bitlen n - 1)"
    using pow2_add[of "?k - 1" "bitlen d"] by simp
  also have "\<dots> \<le> of_int n" by (rule bn(1))
  finally have lower: "pow2 (?k - 1) \<le> a"
    using D by (simp add: a pos_le_divide_eq)
  have "of_int n < pow2 (bitlen n)" by (rule bn(2))
  also have "\<dots> = pow2 (?k + 1) * pow2 (bitlen d - 1)"
    using pow2_add[of "?k + 1" "bitlen d - 1"] by simp
  also have "\<dots> \<le> pow2 (?k + 1) * of_int d"
    using bd(1) by (intro mult_left_mono) simp_all
  finally have upper: "a < pow2 (?k + 1)"
    using D by (simp add: a pos_divide_less_eq)
  show ?thesis
  proof (cases "pow2 ?k \<le> a")
    case True
    with q upper show ?thesis by (simp add: binade_def)
  next
    case False
    with q lower show ?thesis by (simp add: binade_def)
  qed
qed

lemma binade_mono:
  assumes "0 < a" and "a \<le> b"
  shows "binade a \<le> binade b"
proof (rule ccontr)
  assume "\<not> binade a \<le> binade b"
  then have "binade b + 1 \<le> binade a" by simp
  then have "pow2 (binade b + 1) \<le> pow2 (binade a)" by (rule pow2_mono)
  also have "\<dots> \<le> a" using binade_bounds[OF assms(1)] by simp
  also have "\<dots> \<le> b" by (rule assms(2))
  finally show False using binade_bounds[of b] assms by simp
qed

lemma round_binary64_grid:
  assumes "0 < a"
  shows "round_binary64 a =
           (if to_grid (spacing a) a < 2 ^ 1024 then Some (to_grid (spacing a) a) else None)"
proof -
  obtain n d where q: "quotient_of a = (n, d)" by (cases "quotient_of a")
  then have d: "0 < d" by (rule quotient_of_denom_pos)
  from q have a: "a = of_int n / of_int d" by (rule quotient_of_div)
  let ?s = "spacing a"
  have m: "(if 0 \<le> ?s then rne_div n (d * 2 ^ nat ?s) else rne_div (n * 2 ^ nat (- ?s)) d)
             = round_half_even (a / pow2 ?s)"
  proof (cases "0 \<le> ?s")
    case True
    then have "rne_div n (d * 2 ^ nat ?s) = round_half_even (of_int n / of_int (d * 2 ^ nat ?s))"
      using d by (intro rne_div_round) simp
    also have "of_int n / of_int (d * 2 ^ nat ?s) = a / pow2 ?s"
      using True by (simp add: a pow2_def)
    finally show ?thesis using True by simp
  next
    case False
    then have "rne_div (n * 2 ^ nat (- ?s)) d = round_half_even (of_int (n * 2 ^ nat (- ?s)) / of_int d)"
      using d by (intro rne_div_round)
    also have "of_int (n * 2 ^ nat (- ?s)) / of_int d = a / pow2 ?s"
      using False by (simp add: a pow2_def)
    finally show ?thesis using False by simp
  qed
  show ?thesis
    unfolding round_binary64_def q Let_def prod.case spacing_def[symmetric] m to_grid_def
    by (rule refl)
qed

lemma to_grid_spacing_mono:
  assumes "0 < a" and "a \<le> b"
  shows "to_grid (spacing a) a \<le> to_grid (spacing b) b"
proof (cases "spacing a = spacing b")
  case True
  with assms(2) show ?thesis by (simp add: to_grid_mono)
next
  case False
  from assms have b: "0 < b" by simp
  let ?ea = "max (binade a) (- 1022)" and ?eb = "max (binade b) (- 1022)"
  from binade_mono[OF assms] have "?ea \<le> ?eb" by simp
  with False have lt: "?ea < ?eb" unfolding spacing_def by linarith
  then have eb: "?eb = binade b" by linarith
  from lt have le: "?ea + 1 \<le> ?eb" by linarith
  have "a < pow2 (binade a + 1)" using binade_bounds[OF assms(1)] by simp
  also have "\<dots> \<le> pow2 (?ea + 1)" by (rule pow2_mono) simp
  finally have "a \<le> pow2 (?ea + 1)" by simp
  then have "to_grid (spacing a) a \<le> to_grid (spacing a) (pow2 (?ea + 1))"
    by (rule to_grid_mono)
  also have "\<dots> = pow2 (?ea + 1)"
    by (rule to_grid_pow2) (simp add: spacing_def)
  also have "\<dots> \<le> pow2 ?eb" using le by (rule pow2_mono)
  also have "\<dots> = to_grid (spacing b) (pow2 ?eb)"
    by (rule to_grid_pow2[symmetric]) (simp add: spacing_def)
  also have "\<dots> \<le> to_grid (spacing b) b"
  proof (rule to_grid_mono)
    show "pow2 ?eb \<le> b" using binade_bounds[OF b] eb by simp
  qed
  finally show ?thesis .
qed

lemma parseFloat_pos:
  assumes "0 < a"
  shows "parseFloat a = (if to_grid (spacing a) a < 2 ^ 1024 then Finite (to_grid (spacing a) a) else PosInfinity)"
  using assms by (simp add: parseFloat_def round_binary64_grid)

lemma parseFloat_neg:
  assumes "a < 0"
  shows "parseFloat a = (if to_grid (spacing (- a)) (- a) < 2 ^ 1024
                         then Finite (- to_grid (spacing (- a)) (- a)) else NegInfinity)"
  using assms by (simp add: parseFloat_def round_binary64_grid)

lemma parseFloat_mono:
  assumes "a \<le> b"
  shows "\<not> js_lt (parseFloat b) (parseFloat a)"
proof -
  have g0: "0 \<le> to_grid s x" if "0 < x" for s x
    using that by (intro to_grid_nonneg) simp
  consider "a = 0" | "0 < a" | "a < 0" by linarith
  then show ?thesis
  proof cases
    case 1
    with assms consider "b = 0" | "0 < b" by fastforce
    then show ?thesis
    proof cases
      case 1
      with \<open>a = 0\<close> show ?thesis by (simp add: parseFloat_def)
    next
      case 2
      with \<open>a = 0\<close> g0[OF 2, of "spacing b"] show ?thesis
        by (simp add: parseFloat_pos) (simp add: parseFloat_def)
    qed
  next
    case 2
    with assms have b: "0 < b" by simp
    from to_grid_spacing_mono[OF 2 assms] show ?thesis
      by (simp add: parseFloat_pos[OF 2] parseFloat_pos[OF b])
  next
    case 3
    consider "b = 0" | "0 < b" | "b < 0" by linarith
    then show ?thesis
    proof cases
      case 1
      with 3 g0[of "- a" "spacing (- a)"] show ?thesis
        by (simp add: parseFloat_neg) (simp add: parseFloat_def)
    next
      case 2
      with 3 g0[of "- a" "spacing (- a)"] g0[OF 2, of "spacing b"] show ?thesis
        by (simp add: parseFloat_neg parseFloat_pos)
    next
      case b: 3
      with assms have "0 < - b" "- b \<le> - a" by simp_all
      from to_grid_spacing_mono[OF this] show ?thesis
        by (simp add: parseFloat_neg[OF 3] parseFloat_neg[OF b])
    qed
  qed
qed

lemma refused_only_if_less:
  "js_lt (parseFloat b) (parseFloat p) \<Longrightarrow> b < p"
  using parseFloat_mono[of p b] by (cases "b < p") simp_all

subsection \<open>The balance check\<close>

lemma js_lt_irrefl: "\<not> js_lt x x"
  by (cases x) simp_all

lemma buy_refused_iff:
  assumes S: "first_row (\<lambda>r. s_id r = sid) (services (dbs c)) = Some s"
    and U: "first_row (\<lambda>r. u_id r = uid) (users (dbs c)) = Some u"
    and rng: "int4 sid" "int4 uid"
  shows "fst (buy prov uid sid c) = Responded 402 (ErrorJson ''insufficient balance'')
         \<longleftrightarrow> js_lt (parseFloat (wallet_balance u)) (parseFloat (price s))"
  using assms
  by (auto simp: buy_def handler_defs split: option.splits provider_outcome.splits)

text \<open>A refusal is never wrong: whoever is refused has less than the price.\<close>

lemma refusal_implies_less:
  assumes "fst (buy prov uid sid c) = Responded 402 (ErrorJson ''insufficient balance'')"
    and S: "first_row (\<lambda>r. s_id r = sid) (services (dbs c)) = Some s"
    and U: "first_row (\<lambda>r. u_id r = uid) (users (dbs c)) = Some u"
  shows "wallet_balance u < price s"
proof -
  from assms have "js_lt (parseFloat (wallet_balance u)) (parseFloat (price s))"
    by (auto simp: buy_def handler_defs split: option.splits provider_outcome.splits if_splits)
  then show ?thesis by (rule refused_only_if_less)
qed

text \<open>
  The boundary is as the spec has it: a balance equal to the price buys, and leaves
  zero.
\<close>

lemma buy_at_the_boundary:
  assumes S: "first_row (\<lambda>r. s_id r = sid) (services (dbs c)) = Some s"
    and U: "first_row (\<lambda>r. u_id r = uid) (users (dbs c)) = Some u"
    and fresh: "orders_id_seq (dbs c) \<notin> set (map o_id (orders (dbs c)))"
    and rng: "int4 sid" "int4 uid" "int4 (orders_id_seq (dbs c))"
    and eq: "wallet_balance u = price s"
  shows "fst (buy (Resolved pr) uid sid c) = Responded 200 (OrderJson (orders_id_seq (dbs c)) pr)
         \<and> balance_of (dbs (snd (buy (Resolved pr) uid sid c))) uid = Some 0"
proof -
  from eq have ok: "\<not> js_lt (parseFloat (wallet_balance u)) (parseFloat (price s))"
    by (simp add: js_lt_irrefl)
  note step = buy_success[OF S U ok fresh rng, of pr]
  have U1: "first_row (\<lambda>r. u_id r = uid) (users (dbs (snd (buy (Resolved pr) uid sid c))))
              = Some (u\<lparr>wallet_balance := 0\<rparr>)"
    using U first_row_SomeD[OF U] eq by (simp add: step first_row_update_where)
  show ?thesis
    using U1 by (simp add: balance_of_def) (simp add: step)
qed

text \<open>
  C9 (the purchase is refused exactly when \<open>balance < price\<close>) at balance \<open>2^53\<close> and
  price \<open>2^53 + 1\<close>: the two decimals parse to the same double, the check
  \<^verbatim>\<open>parseFloat(balance) < parseFloat(price)\<close> is false, and the purchase is answered
  with the order although the balance is less than the price.
\<close>

theorem rounded_check_accepts_smaller_balance:
  "balance_of (dbs (shop 9007199254740992 9007199254740993)) 1 = Some 9007199254740992
   \<and> price (telegram 9007199254740993) = 9007199254740993
   \<and> fst (buy allocated 1 1 (shop 9007199254740992 9007199254740993))
       = Responded 200 (OrderJson 1 \<lparr>order_id = Some ''77'', id' = None, number = Some ''+60123456789''\<rparr>)"
  by (simp add: h_eval num_eval ex_eval)

subsection \<open>The balance never goes negative, one request at a time and rounding apart\<close>

lemma list_all_update_where:
  assumes "list_all P rows" and "\<And>r. r \<in> set rows \<Longrightarrow> P r \<Longrightarrow> Q r \<Longrightarrow> P (f r)"
  shows "list_all P (update_where Q f rows)"
  using assms by (induction rows) (simp_all add: update_where_def)

lemma pk_unique:
  assumes "distinct (map u_id rows)" and "first_row (\<lambda>r. u_id r = uid) rows = Some u"
    and "r \<in> set rows" and "u_id r = uid"
  shows "r = u"
proof -
  from first_row_SomeD[OF assms(2)] have "u \<in> set rows" "u_id u = uid" by simp_all
  moreover from assms(1) have "inj_on u_id (set rows)" by (simp add: distinct_map)
  ultimately show ?thesis using assms(3,4) by (auto dest: inj_onD)
qed

lemma callback_invariant:
  assumes nb: "nonneg_balances (dbs c)" and na: "nonneg_amounts (dbs c)" and pk: "pk_users (dbs c)"
  shows "nonneg_balances (dbs (snd (topup_callback body c)))
       \<and> nonneg_amounts (dbs (snd (topup_callback body c)))
       \<and> pk_users (dbs (snd (topup_callback body c)))"
proof (cases "billExternalReferenceNo body")
  case None
  with assms show ?thesis by (simp add: callback_no_ref)
next
  case (Some ref)
  let ?p = "parseInt (replace_first ''topup_'' '''' ref)"
  show ?thesis
  proof (cases "status body = ''PAID''")
    case False
    with Some assms show ?thesis by (simp add: callback_not_paid)
  next
    case paid: True
    show ?thesis
    proof (cases "int_param ?p")
      case False
      with Some paid assms show ?thesis by (simp add: callback_bad_param)
    next
      case True
      then obtain tid where tid: "?p = Some tid" "int4 tid"
        by (auto simp: int_param_def split: option.splits)
      show ?thesis
      proof (cases "first_row (\<lambda>r. t_id r = tid) (topups (dbs c))")
        case None
        then have "\<forall>t\<in>set (topups (dbs c)). Some (t_id t) \<noteq> ?p"
          by (simp add: first_row_None_iff tid)
        with Some paid True assms show ?thesis by (simp add: callback_unknown_paid)
      next
        case (Some t)
        note step = callback_paid[OF \<open>billExternalReferenceNo body = Some ref\<close> paid tid Some]
        from first_row_SomeD[OF Some] na have amt: "0 \<le> amount t"
          by (auto simp: nonneg_amounts_def list_all_iff)
        have 1: "nonneg_balances (dbs (snd (topup_callback body c)))"
          using nb amt unfolding nonneg_balances_def step
          by (auto intro!: list_all_update_where)
        have 2: "nonneg_amounts (dbs (snd (topup_callback body c)))"
          using na unfolding nonneg_amounts_def step
          by (auto intro!: list_all_update_where)
        have 3: "pk_users (dbs (snd (topup_callback body c)))"
          using pk unfolding pk_users_def step
          by (simp add: map_update_where)
        from 1 2 3 show ?thesis by simp
      qed
    qed
  qed
qed

lemma buy_invariant:
  assumes nb: "nonneg_balances (dbs c)" and na: "nonneg_amounts (dbs c)" and pk: "pk_users (dbs c)"
    and ex: "exact_request (Buy prov uid sid) (dbs c)"
  shows "nonneg_balances (dbs (snd (buy prov uid sid c)))
       \<and> nonneg_amounts (dbs (snd (buy prov uid sid c)))
       \<and> pk_users (dbs (snd (buy prov uid sid c)))"
proof (cases "\<exists>r. fst (buy prov uid sid c) = Responded 200 r")
  case False
  with buy_effect[of prov uid sid c] assms show ?thesis
    by (simp add: nonneg_balances_def nonneg_amounts_def pk_users_def)
next
  case True
  then obtain r where r: "fst (buy prov uid sid c) = Responded 200 r" by blast
  from buy_effect[of prov uid sid c r, THEN conjunct1, THEN mp, OF r] obtain pr s u where
    eff: "prov = Resolved pr \<and>
      first_row (\<lambda>r. s_id r = sid) (services (dbs c)) = Some s \<and>
      first_row (\<lambda>r. u_id r = uid) (users (dbs c)) = Some u \<and>
      \<not> js_lt (parseFloat (wallet_balance u)) (parseFloat (price s)) \<and>
      r = OrderJson (orders_id_seq (dbs c)) pr \<and>
      dbs (snd (buy prov uid sid c)) =
             (dbs c)\<lparr>users := update_where (\<lambda>r. u_id r = uid)
                                 (\<lambda>r. r\<lparr>wallet_balance := wallet_balance r - price s\<rparr>) (users (dbs c)),
                      orders := orders (dbs c) @
                        [\<lparr>o_id = orders_id_seq (dbs c), o_user_id = uid, o_service_id = sid,
                          o_provider = provider s,
                          provider_order_id = js_or (order_id pr) (id' pr),
                          virtual_number = js_or (number pr) None,
                          sms_code = None, o_status = ''waiting''\<rparr>],
                      orders_id_seq := orders_id_seq (dbs c) + 1\<rparr>"
    by (elim exE)
  from eff have S: "first_row (\<lambda>r. s_id r = sid) (services (dbs c)) = Some s"
    and U: "first_row (\<lambda>r. u_id r = uid) (users (dbs c)) = Some u"
    and ok: "\<not> js_lt (parseFloat (wallet_balance u)) (parseFloat (price s))"
    by simp_all
  from eff have step: "dbs (snd (buy prov uid sid c)) =
             (dbs c)\<lparr>users := update_where (\<lambda>r. u_id r = uid)
                                 (\<lambda>r. r\<lparr>wallet_balance := wallet_balance r - price s\<rparr>) (users (dbs c)),
                      orders := orders (dbs c) @
                        [\<lparr>o_id = orders_id_seq (dbs c), o_user_id = uid, o_service_id = sid,
                          o_provider = provider s,
                          provider_order_id = js_or (order_id pr) (id' pr),
                          virtual_number = js_or (number pr) None,
                          sms_code = None, o_status = ''waiting''\<rparr>],
                      orders_id_seq := orders_id_seq (dbs c) + 1\<rparr>"
    by blast
  from ex S U ok have le: "price s \<le> wallet_balance u"
    by (simp add: exact_lt_def)
  have 1: "nonneg_balances (dbs (snd (buy prov uid sid c)))"
    using nb le pk_unique[OF pk[unfolded pk_users_def] U]
    unfolding nonneg_balances_def step
    by (auto intro!: list_all_update_where)
  have 2: "nonneg_amounts (dbs (snd (buy prov uid sid c)))"
    using na unfolding nonneg_amounts_def step by simp
  have 3: "pk_users (dbs (snd (buy prov uid sid c)))"
    using pk unfolding pk_users_def step by (simp add: map_update_where)
  from 1 2 3 show ?thesis by simp
qed

lemma core_run_invariant:
  assumes "list_all core_request rs" and "exact_run rs c"
    and "nonneg_balances (dbs c)" and "nonneg_amounts (dbs c)" and "pk_users (dbs c)"
  shows "nonneg_balances (dbs (run rs c)) \<and> nonneg_amounts (dbs (run rs c)) \<and> pk_users (dbs (run rs c))"
  using assms
proof (induction rs arbitrary: c)
  case Nil
  then show ?case by simp
next
  case (Cons r rs)
  have step: "nonneg_balances (dbs (snd (handle r c))) \<and> nonneg_amounts (dbs (snd (handle r c)))
              \<and> pk_users (dbs (snd (handle r c)))"
  proof (cases r)
    case (TopupCallback body)
    with Cons.prems show ?thesis by (simp add: callback_invariant)
  next
    case (Buy prov uid sid)
    with Cons.prems show ?thesis using buy_invariant[of c prov uid sid] by simp
  qed (use Cons.prems in simp_all)
  with Cons.prems Cons.IH[of "snd (handle r c)"] show ?case by simp
qed

text \<open>
  Where every balance check compares exactly, requests served one after the other keep
  the balances non-negative: rounding is the only way past the guard in a serial run.
\<close>

lemma exact_serial_runs_stay_nonnegative:
  assumes "nonneg_balances (dbs c)" and "nonneg_amounts (dbs c)" and "pk_users (dbs c)"
    and "list_all core_request rs" and "exact_run rs c"
  shows "nonneg_balances (dbs (run rs c))"
  using core_run_invariant[OF assms(4,5,1,2,3)] by simp

text \<open>
  C4 (after every sequence of confirmations and purchases the balance is at least
  zero) at balance \<open>2^60\<close> and price \<open>2^60 + 1\<close>, which parse to the same double: the
  check passes, the price is deducted, and one purchase leaves the balance at \<open>-1\<close>.
\<close>

theorem rounded_check_lets_balance_go_negative:
  "nonneg_balances (dbs (shop 1152921504606846976 1152921504606846977))
   \<and> balance_of (dbs (run [Buy allocated 1 1] (shop 1152921504606846976 1152921504606846977))) 1
       = Some (- 1)"
  by (simp add: nonneg_balances_def h_eval num_eval ex_eval)

subsection \<open>Two purchases in flight\<close>

lemma interleave_append:
  "interleave (xs @ ys) a b c = (case interleave xs a b c of (a', b', c') \<Rightarrow> interleave ys a' b' c')"
proof (induction xs a b c rule: interleave.induct)
  case (1 a b c)
  then show ?case by simp
next
  case (2 sched a b c)
  then show ?case by (simp split: prod.splits)
next
  case (3 sched a b c)
  then show ?case by (simp split: prod.splits)
qed

lemma five: "replicate 5 x = [x, x, x, x, x]"
  by (simp add: numeral_eq_Suc)

lemma buy_in_steps_first:
  "interleave (replicate 5 False) (BuyStart prov uid sid) b c
     = (BuyDone (fst (buy prov uid sid c)), b, snd (buy prov uid sid c))"
  by (auto simp: five buy_def handler_defs query_def split: option.splits provider_outcome.splits prod.splits)

lemma buy_in_steps_second:
  "interleave (replicate 5 True) a (BuyStart prov uid sid) c
     = (a, BuyDone (fst (buy prov uid sid c)), snd (buy prov uid sid c))"
  by (auto simp: five buy_def handler_defs query_def split: option.splits provider_outcome.splits prod.splits)

lemma interleave_serial:
  "interleave serial (BuyStart p1 u1 s1) (BuyStart p2 u2 s2) c
     = (BuyDone (fst (buy p1 u1 s1 c)),
        BuyDone (fst (buy p2 u2 s2 (snd (buy p1 u1 s1 c)))),
        snd (buy p2 u2 s2 (snd (buy p1 u1 s1 c))))"
  by (simp add: serial_def interleave_append buy_in_steps_first buy_in_steps_second)

lemma buy_success_iff:
  "is_success (BuyDone (fst (buy prov uid sid c))) = (\<exists>r. fst (buy prov uid sid c) = Responded 200 r)"
proof
  assume "is_success (BuyDone (fst (buy prov uid sid c)))"
  then show "\<exists>r. fst (buy prov uid sid c) = Responded 200 r"
    by (auto elim: is_success.elims)
next
  assume "\<exists>r. fst (buy prov uid sid c) = Responded 200 r"
  then obtain r where r: "fst (buy prov uid sid c) = Responded 200 r" by blast
  with buy_effect[of prov uid sid c r] obtain pr where "r = OrderJson (orders_id_seq (dbs c)) pr"
    by blast
  with r show "is_success (BuyDone (fst (buy prov uid sid c)))" by simp
qed

lemma buy_success_valid_ids:
  assumes "fst (buy prov uid sid c) = Responded 200 r"
  shows "int4 sid \<and> int4 uid"
  using assms
  by (auto simp: buy_def handler_defs split: option.splits provider_outcome.splits if_splits)

text \<open>
  C6, as the code has it: for whole amounts up to \<open>2^53\<close> and a balance that covers the
  price once but not twice, two purchase attempts served one after the other never both
  succeed, and the balance ends at its old value or at \<open>balance - price\<close>, never below
  zero. If the first attempt succeeds, the second is refused with \<^verbatim>\<open>insufficient
  balance\<close>: one success and one refusal. The route takes no lock and its \<^verbatim>\<open>UPDATE\<close>
  has no balance condition, so this is a property of the serial schedule only.
\<close>

theorem serial_purchases_one_success:
  assumes S: "first_row (\<lambda>r. s_id r = sid) (services (dbs c)) = Some s"
    and U: "first_row (\<lambda>r. u_id r = uid) (users (dbs c)) = Some u"
    and B: "wallet_balance u = of_int B" and P: "price s = of_int P"
    and one: "P \<le> B" and only: "B - P < P" and bound: "B \<le> 2 ^ 53"
  shows "case interleave serial (BuyStart prov1 uid sid) (BuyStart prov2 uid sid) c of
           (a, b, c') \<Rightarrow>
             \<not> (is_success a \<and> is_success b)
           \<and> (balance_of (dbs c') uid = Some (of_int B)
              \<or> balance_of (dbs c') uid = Some (of_int (B - P)))
           \<and> 0 \<le> B - P
           \<and> (is_success a \<longrightarrow>
                b = BuyDone (Responded 402 (ErrorJson ''insufficient balance''))
                \<and> balance_of (dbs c') uid = Some (of_int (B - P)))"
proof -
  let ?o1 = "fst (buy prov1 uid sid c)" and ?c1 = "snd (buy prov1 uid sid c)"
  let ?o2 = "fst (buy prov2 uid sid ?c1)" and ?c2 = "snd (buy prov2 uid sid ?c1)"
  let ?debit = "update_where (\<lambda>r. u_id r = uid)
                  (\<lambda>r. r\<lparr>wallet_balance := wallet_balance r - price s\<rparr>)"
  have debited: "first_row (\<lambda>r. u_id r = uid) (?debit (users (dbs c)))
                   = Some (u\<lparr>wallet_balance := of_int (B - P)\<rparr>)"
    using U first_row_SomeD[OF U] by (simp add: first_row_update_where B P)
  have bal0: "balance_of (dbs c) uid = Some (of_int B)"
    using U by (simp add: balance_of_def B)
  have first_ok: "?o2 = Responded 402 (ErrorJson ''insufficient balance'')
        \<and> balance_of (dbs ?c2) uid = Some (of_int (B - P))"
    if ok: "\<exists>r. ?o1 = Responded 200 r"
  proof -
    from ok obtain r where r: "?o1 = Responded 200 r" by blast
    from buy_effect[of prov1 uid sid c r] r S U have
      d: "users (dbs ?c1) = ?debit (users (dbs c))" "services (dbs ?c1) = services (dbs c)"
      by auto
    from buy_success_valid_ids[OF r] have rng: "int4 sid" "int4 uid" by simp_all
    have S1: "first_row (\<lambda>r. s_id r = sid) (services (dbs ?c1)) = Some s"
      using S by (simp add: d)
    have U1: "first_row (\<lambda>r. u_id r = uid) (users (dbs ?c1)) = Some (u\<lparr>wallet_balance := of_int (B - P)\<rparr>)"
      using debited by (simp add: d)
    from one only bound have "\<bar>B - P\<bar> \<le> 2 ^ 53" "\<bar>P\<bar> \<le> 2 ^ 53" by simp_all
    then have "exact_lt (of_int (B - P)) (of_int P)" by (rule exact_lt_int)
    with only have lt: "js_lt (parseFloat (wallet_balance (u\<lparr>wallet_balance := of_int (B - P)\<rparr>)))
                             (parseFloat (price s))"
      by (simp add: exact_lt_def P)
    note second = buy_insufficient[OF S1 U1 lt rng, of prov2]
    show ?thesis using U1 by (simp add: second balance_of_def)
  qed
  have first_not: "(balance_of (dbs ?c2) uid = Some (of_int B)
                    \<or> balance_of (dbs ?c2) uid = Some (of_int (B - P)))"
    if no: "\<forall>r. ?o1 \<noteq> Responded 200 r"
  proof -
    from buy_effect[of prov1 uid sid c] no have
      same: "users (dbs ?c1) = users (dbs c)" "services (dbs ?c1) = services (dbs c)"
      by blast+
    show ?thesis
    proof (cases "\<exists>r. ?o2 = Responded 200 r")
      case False
      with buy_effect[of prov2 uid sid ?c1] have "users (dbs ?c2) = users (dbs ?c1)" by blast
      with same bal0 show ?thesis by (simp add: balance_of_def)
    next
      case True
      then obtain r where r: "?o2 = Responded 200 r" by blast
      from buy_effect[of prov2 uid sid ?c1 r] r S U same
      have "users (dbs ?c2) = ?debit (users (dbs c))" by auto
      with debited show ?thesis by (simp add: balance_of_def)
    qed
  qed
  have nonneg: "0 \<le> B - P" using one by simp
  show ?thesis
  proof (cases "\<exists>r. ?o1 = Responded 200 r")
    case True
    from first_ok[OF True] nonneg show ?thesis
      by (simp add: interleave_serial buy_success_iff)
  next
    case False
    then have "\<forall>r. ?o1 \<noteq> Responded 200 r" by blast
    from first_not[OF this] False nonneg show ?thesis
      by (simp add: interleave_serial buy_success_iff)
  qed
qed

theorem serial_purchases_one_success_witness:
  "is_success (fst (interleave serial (BuyStart allocated 1 1) (BuyStart allocated 1 1) (shop 15 10)))
   \<and> fst (snd (interleave serial (BuyStart allocated 1 1) (BuyStart allocated 1 1) (shop 15 10)))
       = BuyDone (Responded 402 (ErrorJson ''insufficient balance''))
   \<and> balance_of (dbs (snd (snd (interleave serial (BuyStart allocated 1 1) (BuyStart allocated 1 1)
                                   (shop 15 10))))) 1 = Some 5"
proof -
  have S: "first_row (\<lambda>r. s_id r = 1) (services (dbs (shop 15 10))) = Some (telegram 10)"
    by (simp add: first_row_def shop_def telegram_def)
  have U: "first_row (\<lambda>r. u_id r = 1) (users (dbs (shop 15 10))) = Some (alice 15)"
    by (simp add: first_row_def shop_def alice_def)
  have B: "wallet_balance (alice 15) = of_int 15" and P: "price (telegram 10) = of_int 10"
    by (simp_all add: alice_def telegram_def)
  have a: "is_success (fst (interleave serial (BuyStart allocated 1 1) (BuyStart allocated 1 1) (shop 15 10)))"
    by (simp add: interleave_serial) (simp add: h_eval num_eval ex_eval)
  from serial_purchases_one_success[OF S U B P, of allocated allocated] a
  show ?thesis by (simp split: prod.splits)
qed

text \<open>
  C6 as stated (any interleaving gives one success and one refusal, never a negative
  balance) fails: with balance 15 and price 10, when the second request is served while
  the first awaits its provider, both checks read 15, both purchases succeed and the
  balance ends at \<open>-5\<close>.
\<close>

theorem interleaved_purchases_both_succeed:
  "balance_of (dbs (shop 15 10)) 1 = Some 15
   \<and> (case interleave racing (BuyStart allocated 1 1) (BuyStart allocated 1 1) (shop 15 10) of
        (a, b, c') \<Rightarrow>
          a = BuyDone (Responded 200 (OrderJson 1 \<lparr>order_id = Some ''77'', id' = None, number = Some ''+60123456789''\<rparr>))
        \<and> b = BuyDone (Responded 200 (OrderJson 2 \<lparr>order_id = Some ''77'', id' = None, number = Some ''+60123456789''\<rparr>))
        \<and> balance_of (dbs c') 1 = Some (- 5))"
  by (simp add: racing_def h_eval num_eval ex_eval)

end
